theory Spec2Isabelle
  imports Complex_Main
begin

section \<open>Values, payloads and the observable events of a run\<close>

text \<open>
  The adapter (\<^verbatim>\<open>src/main.js\<close>) runs once per schedule tick: it checks which states
  exist, fetches the overview, creates states when one was missing, publishes the overview
  values, optionally fetches and publishes the power flow, adjusts its own schedule and
  stops. The embedding threads one record, \<open>world\<close>, through the calls of \<^verbatim>\<open>main\<close>; the
  record holds the module variable \<^verbatim>\<open>createStates\<close>, the state store, the instance
  object and the list of calls the run has made so far, in program order.

  Values handed to the store are JavaScript values. Numbers are passed through and never
  computed with, so they are rationals here.
\<close>

datatype jsval = JUndefined | JNull | JBool bool | JNum rat | JStr string

text \<open>
  The values the module variable \<^verbatim>\<open>createStates\<close> can take: \<^verbatim>\<open>undefined\<close> after the
  module is loaded, \<^verbatim>\<open>true\<close> and \<^verbatim>\<open>false\<close> by assignment, and the numbers 0 and 1
  produced by \<^verbatim>\<open>createStates |= false\<close>.
\<close>

datatype flagval = FUndefined | FTrue | FFalse | FZero | FOne

fun truthy :: "flagval \<Rightarrow> bool" where
  "truthy FTrue = True"
| "truthy FOne = True"
| "truthy _ = False"

text \<open>\<^verbatim>\<open>x |= false\<close>: both operands go through ToInt32, the result is a number.\<close>

fun or_false :: "flagval \<Rightarrow> flagval" where
  "or_false FUndefined = FZero"
| "or_false FTrue = FOne"
| "or_false FFalse = FZero"
| "or_false FZero = FZero"
| "or_false FOne = FOne"

text \<open>
  The power-flow payload: each of the four nodes may be absent; the connection array may
  be absent too (\<^verbatim>\<open>for (let i in undefined)\<close> runs no iteration). An edge carries two
  strings, as the API delivers them.
\<close>

record node =
  node_currentPower :: jsval
  node_status :: jsval
  node_chargeLevel :: jsval

record edge =
  edge_from :: string
  edge_to :: string

record powerFlow =
  pf_unit :: jsval
  pf_GRID :: "node option"
  pf_LOAD :: "node option"
  pf_PV :: "node option"
  pf_STORAGE :: "node option"
  pf_connections :: "edge list option"

text \<open>
  The overview payload. A sub-object such as \<^verbatim>\<open>currentPower\<close> is \<open>None\<close> when it is
  absent and \<open>Some v\<close> when it is present with \<^verbatim>\<open>power\<close> (or \<^verbatim>\<open>energy\<close>) equal to \<open>v\<close>.
\<close>

record overview =
  ov_lastUpdateTime :: jsval
  ov_currentPower :: "jsval option"
  ov_lifeTimeData :: "jsval option"
  ov_lastYearData :: "jsval option"
  ov_lastMonthData :: "jsval option"
  ov_lastDayData :: "jsval option"

datatype exn = TransportError string | TypeError string

text \<open>
  What \<^verbatim>\<open>await axios(url)\<close> does: it throws, or it returns a response whose \<^verbatim>\<open>data\<close> is
  falsy (\<open>Response None\<close>) or an object (\<open>Response (Some d)\<close>). The payload \<open>d\<close> is the
  value of \<^verbatim>\<open>data.overview\<close>, respectively \<^verbatim>\<open>data.siteCurrentPowerFlow\<close>, \<open>None\<close> when
  that property is absent.
\<close>

datatype 'a http_result = Throws exn | Response "'a option option"

text \<open>
  A binary64 number that is not negative, as the quotient \<open>significand / 2 ^ shift\<close>.
  \<^verbatim>\<open>Math.random()\<close> returns a binary64 number from 0 (included) to 1 (excluded); these
  are the quotients with a significand below \<open>2 ^ 53\<close> and a shift from 53 to 1074.
\<close>

record binary64 =
  significand :: nat
  shift :: nat

record env =
  overviewFetch :: "overview http_result"
  powerFlowFetch :: "powerFlow http_result"
  random :: binary64

text \<open>
  What the two calls on the instance object do in a run: each returns (\<open>None\<close>) or throws.
\<close>

record foreign =
  getForeignObjectThrows :: "exn option"
  setForeignObjectThrows :: "exn option"

record config =
  siteid :: "string option"
  apikey :: "string option"
  currentPowerFlow :: bool

record common_t =
  schedule :: "string option"

record inst_obj =
  common :: "common_t option"

datatype level = Debug | Info | Warn | Error

datatype log_msg =
    SiteId "string option"
  | ApiKeyPrefix string
  | ApiKeyNotSet
  | CredentialsNotSet
  | StateMissing string
  | StateExists string
  | CurrentPowerFor string jsval
  | CreatingStates
  | UpdatingStates
  | NoValidContent
  | CannotRead exn
  | Done
  | ScheduleAdjusted

text \<open>
  A state is addressed by the site id and its name: \<^verbatim>\<open>getState\<close>, \<^verbatim>\<open>createStateAsync\<close>
  and \<^verbatim>\<open>setStateChangedAsync\<close> all build the id \<^verbatim>\<open>solaredge.<instance>.<siteid>.<name>\<close>.
\<close>

type_synonym state_id = "string \<times> string"

datatype event =
    Log level log_msg
  | GetState state_id
  | CreateState state_id
  | SetStateChanged state_id jsval
  | HttpGet string
  | GetForeignObject
  | SetForeignObject inst_obj
  | Stop
  | Rejected exn

record world =
  createStates :: flagval
  states :: "state_id \<Rightarrow> jsval option"
  instObj :: "inst_obj option"
  trace :: "event list"

section \<open>The adapter library, as the program uses it\<close>

text \<open>
  The library (\<^verbatim>\<open>@iobroker/adapter-core\<close>) is not part of the repository. Its calls are
  modelled by their contract: a state exists once it has been created or written;
  creating an existing state leaves its value; the calls on states return. The two calls
  on the instance object (lines 337 and 341) return or throw, as the record \<open>foreign\<close>
  of the run says. An event \<open>Rejected x\<close> is the promise of \<^verbatim>\<open>main\<close> rejected with \<open>x\<close>.
  \<^verbatim>\<open>getState\<close> that throws and \<^verbatim>\<open>getState\<close> that returns nothing are the same case for
  the program (line 44), and are \<open>None\<close> here. The definition object passed to
  \<^verbatim>\<open>createStateAsync\<close> (type, role, unit, description) is static data and is left out.
  Lines 167 to 246 call \<^verbatim>\<open>createState\<close> where the others call \<^verbatim>\<open>createStateAsync\<close>; both
  are the same create call here, finished before the next statement runs.
\<close>

definition emit :: "event \<Rightarrow> world \<Rightarrow> world" where
  "emit e w = w\<lparr>trace := trace w @ [e]\<rparr>"

definition adapter_log :: "level \<Rightarrow> log_msg \<Rightarrow> world \<Rightarrow> world" where
  "adapter_log l m w = emit (Log l m) w"

definition createState :: "string \<Rightarrow> string \<Rightarrow> world \<Rightarrow> world" where
  "createState site name w =
     (let w1 = emit (CreateState (site, name)) w
      in case states w1 (site, name) of
           None \<Rightarrow> w1\<lparr>states := (states w1)((site, name) \<mapsto> JNull)\<rparr>
         | Some v \<Rightarrow> w1)"

definition setStateChanged :: "string \<Rightarrow> string \<Rightarrow> jsval \<Rightarrow> world \<Rightarrow> world" where
  "setStateChanged site name v w =
     (let w1 = emit (SetStateChanged (site, name) v) w
      in w1\<lparr>states := (states w1)((site, name) \<mapsto> v)\<rparr>)"

section \<open>checkStateCreationNeeded and checkStatesCreationNeeded (lines 36 to 76)\<close>

definition checkStateCreationNeeded :: "string \<Rightarrow> string \<Rightarrow> world \<Rightarrow> world" where
  "checkStateCreationNeeded site stateName w =
     (let w1 = emit (GetState (site, stateName)) w
      in case states w1 (site, stateName) of
           None \<Rightarrow> (adapter_log Info (StateMissing stateName) w1)\<lparr>createStates := FTrue\<rparr>
         | Some state \<Rightarrow>
             (let w2 = adapter_log Debug (StateExists stateName) w1
              in w2\<lparr>createStates := or_false (createStates w2)\<rparr>))"

definition baseStates :: "string list" where
  "baseStates =
     [''lastUpdateTime'', ''currentPower'', ''lifeTimeData'',
      ''lastYearData'', ''lastMonthData'', ''lastDayData'']"

text \<open>The power-flow states in the order lines 62 to 74 check them.\<close>

definition flowStatesChecked :: "string list" where
  "flowStatesChecked =
     [''currentFlowGrid'', ''currentFlowLoad'', ''currentFlowPv'', ''powerUnit'',
      ''feedToBattery'', ''batteryStatus'', ''batteryPowerFlow'', ''batteryChargeLevel'',
      ''feedToGrid'', ''gridPowerFlow'', ''housePowerFlow'', ''pvPowerFlow'', ''pvStatus'']"

text \<open>The power-flow states in the order lines 167 to 273 create them.\<close>

definition flowStatesCreated :: "string list" where
  "flowStatesCreated =
     [''powerUnit'', ''feedToBattery'', ''batteryStatus'', ''batteryChargeLevel'',
      ''batteryPowerFlow'', ''feedToGrid'', ''gridPowerFlow'', ''housePowerFlow'',
      ''pvPowerFlow'', ''pvStatus'', ''currentFlowGrid'', ''currentFlowLoad'',
      ''currentFlowPv'']"

definition checkStatesCreationNeeded :: "bool \<Rightarrow> string \<Rightarrow> world \<Rightarrow> world" where
  "checkStatesCreationNeeded flag site w =
     (let w1 = fold (checkStateCreationNeeded site) baseStates w
      in if flag then fold (checkStateCreationNeeded site) flowStatesChecked w1 else w1)"

section \<open>The body of main (lines 78 to 349)\<close>

text \<open>Lines 103 to 277: create every state of the catalog when the flag is truthy.\<close>

definition createStatesBlock :: "bool \<Rightarrow> string \<Rightarrow> world \<Rightarrow> world" where
  "createStatesBlock flag site w =
     (if truthy (createStates w) then
        (let w1 = adapter_log Debug CreatingStates w;
             w2 = fold (createState site) baseStates w1;
             w3 = (if flag then fold (createState site) flowStatesCreated w2 else w2)
         in w3\<lparr>createStates := FFalse\<rparr>)
      else w)"

text \<open>
  A run of \<^verbatim>\<open>await adapter.setStateChangedAsync(id, expr, true)\<close> statements. An argument
  expression that reads a property of \<^verbatim>\<open>undefined\<close> throws before the call is made; it is
  \<open>Inl\<close> of the TypeError, and the statements after it are not reached.
\<close>

fun publishAll :: "string \<Rightarrow> (string \<times> (exn + jsval)) list \<Rightarrow> world \<Rightarrow> exn option \<times> world" where
  "publishAll site [] w = (None, w)"
| "publishAll site ((name, Inl e) # rest) w = (Some e, w)"
| "publishAll site ((name, Inr v) # rest) w = publishAll site rest (setStateChanged site name v w)"

definition energyOf :: "jsval option \<Rightarrow> exn + jsval" where
  "energyOf obj = (case obj of None \<Rightarrow> Inl (TypeError ''energy'') | Some e \<Rightarrow> Inr e)"

text \<open>Lines 99 to 286, entered when \<^verbatim>\<open>response.data\<close> is truthy.\<close>

definition overviewBranch :: "bool \<Rightarrow> string \<Rightarrow> overview option \<Rightarrow> world \<Rightarrow> exn option \<times> world" where
  "overviewBranch flag site data_overview w =
     (case data_overview of
        None \<Rightarrow> (Some (TypeError ''currentPower''), w)
      | Some ov \<Rightarrow>
          (case ov_currentPower ov of
             None \<Rightarrow> (Some (TypeError ''power''), w)
           | Some p \<Rightarrow>
               (let w1 = adapter_log Debug (CurrentPowerFor site p) w;
                    w2 = createStatesBlock flag site w1;
                    w3 = adapter_log Debug UpdatingStates w2
                in publishAll site
                     [(''lastUpdateTime'', Inr (ov_lastUpdateTime ov)),
                      (''currentPower'', Inr p),
                      (''lifeTimeData'', energyOf (ov_lifeTimeData ov)),
                      (''lastYearData'', energyOf (ov_lastYearData ov)),
                      (''lastMonthData'', energyOf (ov_lastMonthData ov)),
                      (''lastDayData'', energyOf (ov_lastDayData ov))] w3)))"

text \<open>
  \<^verbatim>\<open>String.prototype.toLowerCase\<close> on the characters a \<open>char\<close> can hold (Latin-1): the
  letters A to Z and the accented capitals move up by 32.
\<close>

definition lowerChar :: "char \<Rightarrow> char" where
  "lowerChar c =
     (let n = (of_char c :: nat)
      in if (65 \<le> n \<and> n \<le> 90) \<or> (192 \<le> n \<and> n \<le> 222 \<and> n \<noteq> 215)
         then char_of (n + 32) else c)"

definition toLowerCase :: "string \<Rightarrow> string" where
  "toLowerCase s = map lowerChar s"

text \<open>Lines 303 to 312: the loop over the connections, started with both flags false.\<close>

fun scanConnections :: "edge list \<Rightarrow> bool \<times> bool \<Rightarrow> bool \<times> bool" where
  "scanConnections [] (feedToGrid, feedToBattery) = (feedToGrid, feedToBattery)"
| "scanConnections (c # cs) (feedToGrid, feedToBattery) =
     scanConnections cs
       (if toLowerCase (edge_from c) = ''load'' \<and> toLowerCase (edge_to c) = ''grid''
        then True else feedToGrid,
        if toLowerCase (edge_from c) = ''load'' \<and> toLowerCase (edge_to c) = ''storage''
        then True else feedToBattery)"

definition powerOr0 :: "node option \<Rightarrow> jsval" where
  "powerOr0 n = (case n of Some x \<Rightarrow> node_currentPower x | None \<Rightarrow> JNum 0)"

definition statusOrUnknown :: "node option \<Rightarrow> jsval" where
  "statusOrUnknown n = (case n of Some x \<Rightarrow> node_status x | None \<Rightarrow> JStr ''unknown'')"

text \<open>Lines 303 to 325, entered when \<^verbatim>\<open>siteCurrentPowerFlow\<close> is truthy.\<close>

definition publishFlow :: "string \<Rightarrow> powerFlow \<Rightarrow> world \<Rightarrow> exn option \<times> world" where
  "publishFlow site pf w =
     (let (feedToGrid, feedToBattery) =
            scanConnections (case pf_connections pf of None \<Rightarrow> [] | Some cs \<Rightarrow> cs) (False, False)
      in publishAll site
           [(''currentFlowGrid'', Inr (powerOr0 (pf_GRID pf))),
            (''currentFlowLoad'', Inr (powerOr0 (pf_LOAD pf))),
            (''currentFlowPv'', Inr (powerOr0 (pf_PV pf))),
            (''powerUnit'', Inr (pf_unit pf)),
            (''feedToBattery'', Inr (JBool feedToBattery)),
            (''batteryStatus'', Inr (statusOrUnknown (pf_STORAGE pf))),
            (''batteryPowerFlow'', Inr (powerOr0 (pf_STORAGE pf))),
            (''batteryChargeLevel'',
               (case pf_STORAGE pf of
                  None \<Rightarrow> Inl (TypeError ''chargeLevel'')
                | Some s \<Rightarrow> Inr (node_chargeLevel s))),
            (''feedToGrid'', Inr (JBool feedToGrid)),
            (''gridPowerFlow'', Inr (powerOr0 (pf_GRID pf))),
            (''housePowerFlow'', Inr (powerOr0 (pf_LOAD pf))),
            (''pvPowerFlow'', Inr (powerOr0 (pf_PV pf))),
            (''pvStatus'', Inr (statusOrUnknown (pf_PV pf)))] w)"

definition overviewUrl :: "string \<Rightarrow> string \<Rightarrow> string" where
  "overviewUrl site key =
     ''https://monitoringapi.solaredge.com/site/'' @ site @ ''/overview.json?api_key='' @ key"

definition powerFlowUrl :: "string \<Rightarrow> string \<Rightarrow> string" where
  "powerFlowUrl site key =
     ''https://monitoringapi.solaredge.com/site/'' @ site @ ''/currentPowerFlow.json?api_key='' @ key"

text \<open>Lines 291 to 328, entered when \<^verbatim>\<open>adapter.config.currentPowerFlow\<close> is set.\<close>

definition powerFlowBranch :: "config \<Rightarrow> env \<Rightarrow> string \<Rightarrow> string \<Rightarrow> world \<Rightarrow> exn option \<times> world" where
  "powerFlowBranch cfg e site key w =
     (let w1 = checkStatesCreationNeeded (currentPowerFlow cfg) site w;
          w2 = emit (HttpGet (powerFlowUrl site key)) w1
      in case powerFlowFetch e of
           Throws x \<Rightarrow> (Some x, w2)
         | Response None \<Rightarrow> (None, w2)
         | Response (Some None) \<Rightarrow> (None, w2)
         | Response (Some (Some pf)) \<Rightarrow> publishFlow site pf w2)"

text \<open>The body of the \<^verbatim>\<open>try\<close> of lines 95 to 328; the result says what was thrown, if anything.\<close>

definition tryBlock :: "config \<Rightarrow> env \<Rightarrow> string \<Rightarrow> string \<Rightarrow> world \<Rightarrow> exn option \<times> world" where
  "tryBlock cfg e site key w =
     (let w1 = emit (HttpGet (overviewUrl site key)) w
      in case overviewFetch e of
           Throws x \<Rightarrow> (Some x, w1)
         | Response d \<Rightarrow>
             (case (case d of
                      Some data_overview \<Rightarrow> overviewBranch (currentPowerFlow cfg) site data_overview w1
                    | None \<Rightarrow> (None, adapter_log Warn NoValidContent w1)) of
                (Some x, w2) \<Rightarrow> (Some x, w2)
              | (None, w2) \<Rightarrow>
                  if currentPowerFlow cfg then powerFlowBranch cfg e site key w2 else (None, w2)))"

text \<open>
  How a template string prints a non-negative integer: its decimal digits, the most
  significant first.
\<close>

definition digitChar :: "nat \<Rightarrow> char" where
  "digitChar d = ''0123456789'' ! (d mod 10)"

fun numberToString :: "nat \<Rightarrow> string" where
  "numberToString n =
     (if 10 \<le> n then numberToString (n div 10) @ [digitChar n] else [digitChar n])"

definition defaultSchedule :: string where
  "defaultSchedule = ''*/15 * * * *''"

text \<open>
  Binary64 arithmetic on numbers that are not negative. \<open>bitLength m\<close> is the number of
  binary digits of \<open>m\<close>; \<open>roundShift m s\<close> is \<open>m / 2 ^ s\<close> rounded to the nearest integer,
  a tie going to the even one. \<^verbatim>\<open>x * 60\<close> is the exact product rounded to 53 significant
  digits; for \<open>x\<close> below 1 the shift stays above the dropped digits, and a product with at
  most 53 digits is exact. \<^verbatim>\<open>Math.floor\<close> drops the digits after the point.
\<close>

fun bitLength :: "nat \<Rightarrow> nat" where
  "bitLength n = (if n = 0 then 0 else Suc (bitLength (n div 2)))"

definition roundShift :: "nat \<Rightarrow> nat \<Rightarrow> nat" where
  "roundShift m s =
     (let q = m div 2 ^ s; r = m mod 2 ^ s
      in if 2 ^ s < 2 * r \<or> (2 * r = 2 ^ s \<and> odd q) then q + 1 else q)"

definition times60 :: "binary64 \<Rightarrow> binary64" where
  "times60 d =
     (let m = significand d * 60; s = bitLength m - 53
      in \<lparr>significand = roundShift m s, shift = shift d - s\<rparr>)"

definition mathFloor :: "binary64 \<Rightarrow> nat" where
  "mathFloor d = significand d div 2 ^ shift d"

text \<open>\<^verbatim>\<open>Math.floor(Math.random() * 60)\<close> of line 339.\<close>

definition secondsOffset :: "binary64 \<Rightarrow> nat" where
  "secondsOffset r = mathFloor (times60 r)"

text \<open>The numbers \<^verbatim>\<open>Math.random()\<close> can return.\<close>

definition isRandom :: "binary64 \<Rightarrow> bool" where
  "isRandom d = (significand d < 2 ^ 53 \<and> 53 \<le> shift d \<and> shift d \<le> 1074)"

text \<open>Line 339: the instance object with the new schedule.\<close>

definition rescheduled :: "env \<Rightarrow> inst_obj \<Rightarrow> common_t \<Rightarrow> inst_obj" where
  "rescheduled e obj c =
     obj\<lparr>common := Some (c\<lparr>schedule :=
       Some (numberToString (secondsOffset (random e)) @ '' */15 * * * *'')\<rparr>)\<rparr>"

text \<open>
  The body of the \<^verbatim>\<open>try\<close> of lines 336 to 342; the result says what was thrown, if
  anything. A write that throws leaves the stored object as it was. The handler of lines
  343 to 345 follows in \<open>cleanup\<close>.
\<close>

definition adjustSchedule :: "foreign \<Rightarrow> env \<Rightarrow> world \<Rightarrow> exn option \<times> world" where
  "adjustSchedule fo e w =
     (let w1 = emit GetForeignObject w
      in case getForeignObjectThrows fo of
           Some x \<Rightarrow> (Some x, w1)
         | None \<Rightarrow>
             (case instObj w1 of
                None \<Rightarrow> (None, w1)
              | Some obj \<Rightarrow>
                  (case common obj of
                     None \<Rightarrow> (None, w1)
                   | Some c \<Rightarrow>
                       (case schedule c of
                          None \<Rightarrow> (None, w1)
                        | Some s \<Rightarrow>
                            if s \<noteq> [] \<and> s = defaultSchedule then
                              (let obj' = rescheduled e obj c;
                                   w2 = adapter_log Info ScheduleAdjusted w1;
                                   w3 = emit (SetForeignObject obj') w2
                               in case setForeignObjectThrows fo of
                                    Some x \<Rightarrow> (Some x, w3)
                                  | None \<Rightarrow> (None, w3\<lparr>instObj := Some obj'\<rparr>))
                            else (None, w1)))))"

text \<open>
  Lines 336 to 347: the schedule step, its handler and \<^verbatim>\<open>adapter.stop()\<close>. The handler
  of line 344 calls \<^verbatim>\<open>this.log.error\<close>, where every other log call is on \<^verbatim>\<open>adapter\<close>.
  \<^verbatim>\<open>main\<close> is a plain function that the file hands to the library as the \<^verbatim>\<open>ready\<close>
  member of the options object (line 32) and never binds to the adapter. Called as a
  member of that object, \<^verbatim>\<open>this.log\<close> is undefined and reading \<^verbatim>\<open>error\<close> from it throws a
  TypeError (called with no receiver, the file being strict, reading \<^verbatim>\<open>log\<close> throws one
  already). Nothing is logged, the promise of \<^verbatim>\<open>main\<close> is rejected with the TypeError, and
  line 347 is not reached.
\<close>

definition cleanup :: "foreign \<Rightarrow> env \<Rightarrow> world \<Rightarrow> world" where
  "cleanup fo e w =
     (case adjustSchedule fo e w of
        (None, w') \<Rightarrow> emit Stop w'
      | (Some err, w') \<Rightarrow> emit (Rejected (TypeError ''error'')) w')"

text \<open>The handler of lines 329 to 332: what the \<^verbatim>\<open>try\<close> threw is logged as an error.\<close>

definition catchBlock :: "exn option \<times> world \<Rightarrow> world" where
  "catchBlock r =
     (case r of
        (None, w) \<Rightarrow> w
      | (Some x, w) \<Rightarrow> adapter_log Error (CannotRead x) w)"

definition main :: "foreign \<Rightarrow> config \<Rightarrow> env \<Rightarrow> world \<Rightarrow> world" where
  "main fo cfg e w =
     (let w1 = adapter_log Debug (SiteId (siteid cfg)) w;
          w2 = adapter_log Debug
                 (case apikey cfg of
                    None \<Rightarrow> ApiKeyNotSet
                  | Some k \<Rightarrow> if k = [] then ApiKeyNotSet else ApiKeyPrefix (take 4 k)) w1
      in case (siteid cfg, apikey cfg) of
           (Some site, Some key) \<Rightarrow>
             if site = [] \<or> key = [] then adapter_log Error CredentialsNotSet w2
             else
               (let w3 = checkStatesCreationNeeded (currentPowerFlow cfg) site w2;
                    w4 = catchBlock (tryBlock cfg e site key w3);
                    w5 = adapter_log Debug Done w4
                in cleanup fo e w5)
         | _ \<Rightarrow> adapter_log Error CredentialsNotSet w2)"

text \<open>
  One run of the process: the list of calls starts empty, and \<open>fo\<close> says what the two
  calls on the instance object do in this run.
\<close>

definition runWith :: "foreign \<Rightarrow> config \<Rightarrow> env \<Rightarrow> world \<Rightarrow> world" where
  "runWith fo cfg e w = main fo cfg e (w\<lparr>trace := []\<rparr>)"

text \<open>The runs in which both calls on the instance object return.\<close>

definition reliable :: foreign where
  "reliable = \<lparr>getForeignObjectThrows = None, setForeignObjectThrows = None\<rparr>"

definition run :: "config \<Rightarrow> env \<Rightarrow> world \<Rightarrow> world" where
  "run cfg e w = main reliable cfg e (w\<lparr>trace := []\<rparr>)"

section \<open>What a run did: projections of the list of calls\<close>

fun getCalls :: "event list \<Rightarrow> state_id list" where
  "getCalls [] = []"
| "getCalls (GetState i # es) = i # getCalls es"
| "getCalls (e # es) = getCalls es"

fun createCalls :: "event list \<Rightarrow> state_id list" where
  "createCalls [] = []"
| "createCalls (CreateState i # es) = i # createCalls es"
| "createCalls (e # es) = createCalls es"

fun setCalls :: "event list \<Rightarrow> (state_id \<times> jsval) list" where
  "setCalls [] = []"
| "setCalls (SetStateChanged i v # es) = (i, v) # setCalls es"
| "setCalls (e # es) = setCalls es"

fun httpCalls :: "event list \<Rightarrow> string list" where
  "httpCalls [] = []"
| "httpCalls (HttpGet u # es) = u # httpCalls es"
| "httpCalls (e # es) = httpCalls es"

fun foreignWrites :: "event list \<Rightarrow> inst_obj list" where
  "foreignWrites [] = []"
| "foreignWrites (SetForeignObject obj # es) = obj # foreignWrites es"
| "foreignWrites (e # es) = foreignWrites es"

text \<open>How the run ended: the stop calls and the rejections, in order.\<close>

fun endings :: "event list \<Rightarrow> event list" where
  "endings [] = []"
| "endings (Stop # es) = Stop # endings es"
| "endings (Rejected x # es) = Rejected x # endings es"
| "endings (e # es) = endings es"

text \<open>The messages logged at one level, in order.\<close>

fun logsAt :: "level \<Rightarrow> event list \<Rightarrow> log_msg list" where
  "logsAt lv [] = []"
| "logsAt lv (Log l m # es) = (if l = lv then m # logsAt lv es else logsAt lv es)"
| "logsAt lv (e # es) = logsAt lv es"

text \<open>
  The catalog a run works on: the base states, and the power-flow states when the feature
  is enabled; once in the order of the checks, once in the order of the creations.
\<close>

definition activeCatalog :: "bool \<Rightarrow> string list" where
  "activeCatalog flag = baseStates @ (if flag then flowStatesChecked else [])"

definition createdCatalog :: "bool \<Rightarrow> string list" where
  "createdCatalog flag = baseStates @ (if flag then flowStatesCreated else [])"

text \<open>
  The overview fetch returned a body whose \<^verbatim>\<open>overview.currentPower\<close> can be read, so
  that line 101 does not throw and line 103 is reached.
\<close>

definition overviewUsable :: "env \<Rightarrow> bool" where
  "overviewUsable e =
     (case overviewFetch e of
        Response (Some (Some ov)) \<Rightarrow> ov_currentPower ov \<noteq> None
      | _ \<Rightarrow> False)"

definition validCredentials :: "config \<Rightarrow> string \<Rightarrow> string \<Rightarrow> bool" where
  "validCredentials cfg site key =
     (siteid cfg = Some site \<and> site \<noteq> [] \<and> apikey cfg = Some key \<and> key \<noteq> [])"

text \<open>The part of the \<^verbatim>\<open>try\<close> before the power-flow branch (lines 96 to 289).\<close>

definition overviewPart :: "config \<Rightarrow> env \<Rightarrow> string \<Rightarrow> string \<Rightarrow> world \<Rightarrow> exn option \<times> world" where
  "overviewPart cfg e site key w =
     (let w1 = emit (HttpGet (overviewUrl site key)) w
      in case overviewFetch e of
           Throws x \<Rightarrow> (Some x, w1)
         | Response d \<Rightarrow>
             (case d of
                Some data_overview \<Rightarrow> overviewBranch (currentPowerFlow cfg) site data_overview w1
              | None \<Rightarrow> (None, adapter_log Warn NoValidContent w1)))"

text \<open>Every state that exists in the first store exists in the second.\<close>

definition grows :: "(state_id \<Rightarrow> jsval option) \<Rightarrow> (state_id \<Rightarrow> jsval option) \<Rightarrow> bool" where
  "grows s s' = (\<forall>k. s k \<noteq> None \<longrightarrow> s' k \<noteq> None)"

text \<open>A store is settled for a site when the flag is falsy and the whole catalog exists.\<close>

definition settled :: "bool \<Rightarrow> string \<Rightarrow> world \<Rightarrow> bool" where
  "settled flag site w =
     (\<not> truthy (createStates w) \<and> (\<forall>n\<in>set (activeCatalog flag). states w (site, n) \<noteq> None))"

text \<open>Comparison of two names without regard to case.\<close>

definition eqIgnoreCase :: "string \<Rightarrow> string \<Rightarrow> bool" where
  "eqIgnoreCase a b = (toLowerCase a = toLowerCase b)"

text \<open>The schedule string of the instance object, when there is one.\<close>

definition storedSchedule :: "world \<Rightarrow> string option" where
  "storedSchedule w =
     (case instObj w of
        None \<Rightarrow> None
      | Some obj \<Rightarrow> (case common obj of None \<Rightarrow> None | Some c \<Rightarrow> schedule c))"

definition edgesOf :: "powerFlow \<Rightarrow> edge list" where
  "edgesOf pf = (case pf_connections pf of None \<Rightarrow> [] | Some cs \<Rightarrow> cs)"

text \<open>
  The two derived signals as the specification words them: true exactly when some edge
  goes from LOAD to GRID, respectively from LOAD to STORAGE, names compared without regard
  to case.
\<close>

definition spec_feedToGrid :: "edge list \<Rightarrow> bool" where
  "spec_feedToGrid cs =
     (\<exists>c\<in>set cs. eqIgnoreCase (edge_from c) ''LOAD'' \<and> eqIgnoreCase (edge_to c) ''GRID'')"

definition spec_feedToBattery :: "edge list \<Rightarrow> bool" where
  "spec_feedToBattery cs =
     (\<exists>c\<in>set cs. eqIgnoreCase (edge_from c) ''LOAD'' \<and> eqIgnoreCase (edge_to c) ''STORAGE'')"

section \<open>Sample inputs\<close>

definition cfgFlow :: config where
  "cfgFlow = \<lparr>siteid = Some ''1234'', apikey = Some ''ABCDEF'', currentPowerFlow = True\<rparr>"

definition cfgBase :: config where
  "cfgBase = \<lparr>siteid = Some ''1234'', apikey = Some ''ABCDEF'', currentPowerFlow = False\<rparr>"

definition cfgNoKey :: config where
  "cfgNoKey = \<lparr>siteid = Some ''1234'', apikey = None, currentPowerFlow = True\<rparr>"

definition sampleOverview :: overview where
  "sampleOverview =
     \<lparr>ov_lastUpdateTime = JStr ''2023-06-01 12:00:00'',
      ov_currentPower = Some (JNum 1500),
      ov_lifeTimeData = Some (JNum 9000000),
      ov_lastYearData = Some (JNum 4000000),
      ov_lastMonthData = Some (JNum 300000),
      ov_lastDayData = Some (JNum 12000)\<rparr>"

definition sampleNode :: "rat \<Rightarrow> node" where
  "sampleNode p =
     \<lparr>node_currentPower = JNum p, node_status = JStr ''Active'', node_chargeLevel = JUndefined\<rparr>"

text \<open>A site without a battery: the API sends no \<^verbatim>\<open>STORAGE\<close> node.\<close>

definition flowNoStorage :: "edge list \<Rightarrow> powerFlow" where
  "flowNoStorage cs =
     \<lparr>pf_unit = JStr ''kW'',
      pf_GRID = Some (sampleNode 1),
      pf_LOAD = Some (sampleNode 2),
      pf_PV = Some (sampleNode 3),
      pf_STORAGE = None,
      pf_connections = Some cs\<rparr>"

definition envWith :: "overview http_result \<Rightarrow> powerFlow http_result \<Rightarrow> env" where
  "envWith o_res f_res =
     \<lparr>overviewFetch = o_res, powerFlowFetch = f_res,
      random = \<lparr>significand = 4503599627370496, shift = 53\<rparr>\<rparr>"

text \<open>An instance object that cannot be read in this run.\<close>

definition readThrows :: foreign where
  "readThrows =
     \<lparr>getForeignObjectThrows = Some (TransportError ''connection lost''),
      setForeignObjectThrows = None\<rparr>"

definition envOk :: env where
  "envOk = envWith (Response (Some (Some sampleOverview))) (Response (Some None))"

definition defaultInst :: inst_obj where
  "defaultInst = \<lparr>common = Some \<lparr>schedule = Some ''*/15 * * * *''\<rparr>\<rparr>"

text \<open>The store before the first run: no state exists, the schedule is the default.\<close>

definition emptyWorld :: world where
  "emptyWorld =
     \<lparr>createStates = FUndefined, states = (\<lambda>k. None), instObj = Some defaultInst, trace = []\<rparr>"

definition declaredWorld :: world where
  "declaredWorld =
     emptyWorld\<lparr>states :=
       (\<lambda>k. if fst k = ''1234'' \<and> snd k \<in> set (baseStates @ flowStatesChecked)
            then Some JNull else None)\<rparr>"

definition envOverviewThrows :: env where
  "envOverviewThrows = envWith (Throws (TransportError ''timeout'')) (Response (Some None))"

definition envEmptyBody :: env where
  "envEmptyBody = envWith (Response None) (Response (Some None))"

definition shiftedWorld :: world where
  "shiftedWorld = emptyWorld\<lparr>instObj := Some \<lparr>common = Some \<lparr>schedule = Some ''7 */15 * * * *''\<rparr>\<rparr>\<rparr>"

definition envFlowThrows :: env where
  "envFlowThrows = envWith (Response (Some (Some sampleOverview))) (Throws (TransportError ''timeout''))"

definition envNoOverview :: env where
  "envNoOverview = envWith (Response (Some None)) (Response (Some None))"


definition envNoCurrentPower :: env where
  "envNoCurrentPower =
     envWith (Response (Some (Some (sampleOverview\<lparr>ov_currentPower := None\<rparr>)))) (Response (Some None))"

definition envNoStorage :: "edge list \<Rightarrow> env" where
  "envNoStorage cs =
     envWith (Response (Some (Some sampleOverview))) (Response (Some (Some (flowNoStorage cs))))"

definition loadToGrid :: edge where
  "loadToGrid = \<lparr>edge_from = ''Load'', edge_to = ''Grid''\<rparr>"

section \<open>How each step changes the world\<close>

declare numberToString.simps [simp del]

declare bitLength.simps [simp del]

lemma getCalls_append [simp]: "getCalls (xs @ ys) = getCalls xs @ getCalls ys"
  by (induction xs rule: getCalls.induct) simp_all

lemma createCalls_append [simp]: "createCalls (xs @ ys) = createCalls xs @ createCalls ys"
  by (induction xs rule: createCalls.induct) simp_all

lemma setCalls_append [simp]: "setCalls (xs @ ys) = setCalls xs @ setCalls ys"
  by (induction xs rule: setCalls.induct) simp_all

lemma httpCalls_append [simp]: "httpCalls (xs @ ys) = httpCalls xs @ httpCalls ys"
  by (induction xs rule: httpCalls.induct) simp_all

lemma logsAt_append [simp]: "logsAt lv (xs @ ys) = logsAt lv xs @ logsAt lv ys"
  by (induction lv xs rule: logsAt.induct) simp_all

lemma foreignWrites_append [simp]: "foreignWrites (xs @ ys) = foreignWrites xs @ foreignWrites ys"
  by (induction xs rule: foreignWrites.induct) simp_all

lemma endings_append [simp]: "endings (xs @ ys) = endings xs @ endings ys"
  by (induction xs rule: endings.induct) simp_all

text \<open>The events a function adds: every function of the program only appends.\<close>

lemma emit_simps [simp]:
  "trace (emit ev w) = trace w @ [ev]"
  "states (emit ev w) = states w"
  "createStates (emit ev w) = createStates w"
  "instObj (emit ev w) = instObj w"
  by (simp_all add: emit_def)

lemma adapter_log_simps [simp]:
  "trace (adapter_log l m w) = trace w @ [Log l m]"
  "states (adapter_log l m w) = states w"
  "createStates (adapter_log l m w) = createStates w"
  "instObj (adapter_log l m w) = instObj w"
  by (simp_all add: adapter_log_def)

lemma truthy_or_false [simp]: "truthy (or_false c) = truthy c"
  by (cases c) simp_all

lemma check1_simps [simp]:
  "states (checkStateCreationNeeded site n w) = states w"
  "instObj (checkStateCreationNeeded site n w) = instObj w"
  "getCalls (trace (checkStateCreationNeeded site n w)) = getCalls (trace w) @ [(site, n)]"
  "createCalls (trace (checkStateCreationNeeded site n w)) = createCalls (trace w)"
  "setCalls (trace (checkStateCreationNeeded site n w)) = setCalls (trace w)"
  "httpCalls (trace (checkStateCreationNeeded site n w)) = httpCalls (trace w)"
  "foreignWrites (trace (checkStateCreationNeeded site n w)) = foreignWrites (trace w)"
  "endings (trace (checkStateCreationNeeded site n w)) = endings (trace w)"
  "truthy (createStates (checkStateCreationNeeded site n w))
     = (states w (site, n) = None \<or> truthy (createStates w))"
  by (simp_all add: checkStateCreationNeeded_def Let_def split: option.splits)

lemma fold_check_simps [simp]:
  "states (fold (checkStateCreationNeeded site) ns w) = states w"
  "instObj (fold (checkStateCreationNeeded site) ns w) = instObj w"
  "getCalls (trace (fold (checkStateCreationNeeded site) ns w)) = getCalls (trace w) @ map (Pair site) ns"
  "createCalls (trace (fold (checkStateCreationNeeded site) ns w)) = createCalls (trace w)"
  "setCalls (trace (fold (checkStateCreationNeeded site) ns w)) = setCalls (trace w)"
  "httpCalls (trace (fold (checkStateCreationNeeded site) ns w)) = httpCalls (trace w)"
  "foreignWrites (trace (fold (checkStateCreationNeeded site) ns w)) = foreignWrites (trace w)"
  "endings (trace (fold (checkStateCreationNeeded site) ns w)) = endings (trace w)"
  "truthy (createStates (fold (checkStateCreationNeeded site) ns w))
     = ((\<exists>n\<in>set ns. states w (site, n) = None) \<or> truthy (createStates w))"
  by (induction ns arbitrary: w; auto)+

lemma checks_simps [simp]:
  "states (checkStatesCreationNeeded flag site w) = states w"
  "instObj (checkStatesCreationNeeded flag site w) = instObj w"
  "getCalls (trace (checkStatesCreationNeeded flag site w)) = getCalls (trace w) @ map (Pair site) (activeCatalog flag)"
  "createCalls (trace (checkStatesCreationNeeded flag site w)) = createCalls (trace w)"
  "setCalls (trace (checkStatesCreationNeeded flag site w)) = setCalls (trace w)"
  "httpCalls (trace (checkStatesCreationNeeded flag site w)) = httpCalls (trace w)"
  "foreignWrites (trace (checkStatesCreationNeeded flag site w)) = foreignWrites (trace w)"
  "endings (trace (checkStatesCreationNeeded flag site w)) = endings (trace w)"
  "truthy (createStates (checkStatesCreationNeeded flag site w))
     = ((\<exists>n\<in>set (activeCatalog flag). states w (site, n) = None) \<or> truthy (createStates w))"
  by (auto simp: checkStatesCreationNeeded_def activeCatalog_def Let_def)

lemma createState_simps [simp]:
  "instObj (createState site n w) = instObj w"
  "createStates (createState site n w) = createStates w"
  "getCalls (trace (createState site n w)) = getCalls (trace w)"
  "createCalls (trace (createState site n w)) = createCalls (trace w) @ [(site, n)]"
  "setCalls (trace (createState site n w)) = setCalls (trace w)"
  "httpCalls (trace (createState site n w)) = httpCalls (trace w)"
  "foreignWrites (trace (createState site n w)) = foreignWrites (trace w)"
  "endings (trace (createState site n w)) = endings (trace w)"
  "logsAt lv (trace (createState site n w)) = logsAt lv (trace w)"
  "dom (states (createState site n w)) = insert (site, n) (dom (states w))"
  by (auto simp: createState_def Let_def split: option.splits)

lemma fold_createState_simps [simp]:
  "instObj (fold (createState site) ns w) = instObj w"
  "createStates (fold (createState site) ns w) = createStates w"
  "getCalls (trace (fold (createState site) ns w)) = getCalls (trace w)"
  "createCalls (trace (fold (createState site) ns w)) = createCalls (trace w) @ map (Pair site) ns"
  "setCalls (trace (fold (createState site) ns w)) = setCalls (trace w)"
  "httpCalls (trace (fold (createState site) ns w)) = httpCalls (trace w)"
  "foreignWrites (trace (fold (createState site) ns w)) = foreignWrites (trace w)"
  "endings (trace (fold (createState site) ns w)) = endings (trace w)"
  "logsAt lv (trace (fold (createState site) ns w)) = logsAt lv (trace w)"
  "dom (states (fold (createState site) ns w)) = Pair site ` set ns \<union> dom (states w)"
  by (induction ns arbitrary: w; auto)+

lemma setStateChanged_simps [simp]:
  "instObj (setStateChanged site n v w) = instObj w"
  "createStates (setStateChanged site n v w) = createStates w"
  "getCalls (trace (setStateChanged site n v w)) = getCalls (trace w)"
  "createCalls (trace (setStateChanged site n v w)) = createCalls (trace w)"
  "setCalls (trace (setStateChanged site n v w)) = setCalls (trace w) @ [((site, n), v)]"
  "httpCalls (trace (setStateChanged site n v w)) = httpCalls (trace w)"
  "foreignWrites (trace (setStateChanged site n v w)) = foreignWrites (trace w)"
  "endings (trace (setStateChanged site n v w)) = endings (trace w)"
  "logsAt lv (trace (setStateChanged site n v w)) = logsAt lv (trace w)"
  "states (setStateChanged site n v w) = (states w)((site, n) \<mapsto> v)"
  by (simp_all add: setStateChanged_def Let_def)

lemma publishAll_frame [simp]:
  "instObj (snd (publishAll site xs w)) = instObj w"
  "createStates (snd (publishAll site xs w)) = createStates w"
  "getCalls (trace (snd (publishAll site xs w))) = getCalls (trace w)"
  "createCalls (trace (snd (publishAll site xs w))) = createCalls (trace w)"
  "httpCalls (trace (snd (publishAll site xs w))) = httpCalls (trace w)"
  "foreignWrites (trace (snd (publishAll site xs w))) = foreignWrites (trace w)"
  "endings (trace (snd (publishAll site xs w))) = endings (trace w)"
  "logsAt lv (trace (snd (publishAll site xs w))) = logsAt lv (trace w)"
  by (induction site xs w rule: publishAll.induct; simp)+

lemma publishAll_keeps:
  "states w k \<noteq> None \<Longrightarrow> states (snd (publishAll site xs w)) k \<noteq> None"
  by (induction site xs w rule: publishAll.induct) simp_all

lemma publishAll_dom: "dom (states w) \<subseteq> dom (states (snd (publishAll site xs w)))"
  using publishAll_keeps by (fastforce simp: dom_def)

lemma createStatesBlock_simps [simp]:
  "instObj (createStatesBlock flag site w) = instObj w"
  "getCalls (trace (createStatesBlock flag site w)) = getCalls (trace w)"
  "createCalls (trace (createStatesBlock flag site w))
     = createCalls (trace w) @ (if truthy (createStates w) then map (Pair site) (createdCatalog flag) else [])"
  "setCalls (trace (createStatesBlock flag site w)) = setCalls (trace w)"
  "httpCalls (trace (createStatesBlock flag site w)) = httpCalls (trace w)"
  "foreignWrites (trace (createStatesBlock flag site w)) = foreignWrites (trace w)"
  "endings (trace (createStatesBlock flag site w)) = endings (trace w)"
  "truthy (createStates (createStatesBlock flag site w)) = False"
  "dom (states (createStatesBlock flag site w))
     = (if truthy (createStates w) then Pair site ` set (createdCatalog flag) else {}) \<union> dom (states w)"
  by (auto simp: createStatesBlock_def createdCatalog_def Let_def)

lemma createStatesBlock_logs [simp]:
  "logsAt lv (trace (createStatesBlock flag site w))
     = logsAt lv (trace w) @ (if truthy (createStates w) \<and> lv = Debug then [CreatingStates] else [])"
  by (auto simp: createStatesBlock_def Let_def)

lemma catalog_sets: "set (createdCatalog flag) = set (activeCatalog flag)"
  by (auto simp: createdCatalog_def activeCatalog_def flowStatesCreated_def flowStatesChecked_def)

lemma overviewBranch_frame [simp]:
  "instObj (snd (overviewBranch flag site d w)) = instObj w"
  "getCalls (trace (snd (overviewBranch flag site d w))) = getCalls (trace w)"
  "httpCalls (trace (snd (overviewBranch flag site d w))) = httpCalls (trace w)"
  "foreignWrites (trace (snd (overviewBranch flag site d w))) = foreignWrites (trace w)"
  "endings (trace (snd (overviewBranch flag site d w))) = endings (trace w)"
  by (simp_all add: overviewBranch_def Let_def split: option.splits)

lemma overviewBranch_creates:
  "createCalls (trace (snd (overviewBranch flag site d w)))
     = createCalls (trace w) @
       (if (\<exists>ov. d = Some ov \<and> ov_currentPower ov \<noteq> None) \<and> truthy (createStates w)
        then map (Pair site) (createdCatalog flag) else [])"
  by (auto simp: overviewBranch_def Let_def split: option.splits)

lemma overviewBranch_flag:
  "truthy (createStates (snd (overviewBranch flag site d w)))
     = (truthy (createStates w) \<and> \<not> (\<exists>ov. d = Some ov \<and> ov_currentPower ov \<noteq> None))"
  by (auto simp: overviewBranch_def Let_def split: option.splits)

lemma overviewBranch_usable:
  assumes "d = Some ov" "ov_currentPower ov = Some p"
  shows "\<exists>xs. overviewBranch flag site d w
           = publishAll site xs
               (adapter_log Debug UpdatingStates
                 (createStatesBlock flag site (adapter_log Debug (CurrentPowerFor site p) w)))"
  using assms by (auto simp add: overviewBranch_def Let_def simp del: publishAll.simps)

lemma overviewBranch_dom:
  "dom (states w) \<subseteq> dom (states (snd (overviewBranch flag site d w)))"
proof (cases "\<exists>ov p. d = Some ov \<and> ov_currentPower ov = Some p")
  case True
  then obtain ov p where d: "d = Some ov" "ov_currentPower ov = Some p" by blast
  let ?w3 = "adapter_log Debug UpdatingStates
              (createStatesBlock flag site (adapter_log Debug (CurrentPowerFor site p) w))"
  obtain xs where xs: "overviewBranch flag site d w = publishAll site xs ?w3"
    using overviewBranch_usable [OF d] by blast
  have "dom (states w) \<subseteq> dom (states ?w3)" by auto
  also have "\<dots> \<subseteq> dom (states (snd (overviewBranch flag site d w)))"
    unfolding xs by (rule publishAll_dom)
  finally show ?thesis .
next
  case False
  then show ?thesis by (auto simp: overviewBranch_def split: option.splits)
qed

lemma overviewBranch_created_dom:
  assumes "d = Some ov" "ov_currentPower ov = Some p" "truthy (createStates w)"
  shows "Pair site ` set (createdCatalog flag) \<subseteq> dom (states (snd (overviewBranch flag site d w)))"
proof -
  let ?w3 = "adapter_log Debug UpdatingStates
              (createStatesBlock flag site (adapter_log Debug (CurrentPowerFor site p) w))"
  obtain xs where xs: "overviewBranch flag site d w = publishAll site xs ?w3"
    using overviewBranch_usable [OF assms(1,2)] by blast
  have "Pair site ` set (createdCatalog flag) \<subseteq> dom (states ?w3)" using assms(3) by auto
  also have "\<dots> \<subseteq> dom (states (snd (overviewBranch flag site d w)))"
    unfolding xs by (rule publishAll_dom)
  finally show ?thesis .
qed

lemma grows_dom: "grows s s' = (dom s \<subseteq> dom s')"
  by (auto simp: grows_def dom_def)

lemma grows_refl [simp]: "grows s s"
  by (simp add: grows_def)

lemma grows_trans: "grows a b \<Longrightarrow> grows b c \<Longrightarrow> grows a c"
  by (simp add: grows_def)

lemma publishAll_grows: "grows s (states w) \<Longrightarrow> grows s (states (snd (publishAll site xs w)))"
  using publishAll_dom [of w site xs] by (auto simp: grows_dom)

lemma overviewBranch_grows:
  "grows s (states w) \<Longrightarrow> grows s (states (snd (overviewBranch flag site d w)))"
  using overviewBranch_dom [of w flag site d] by (auto simp: grows_dom)

lemma catchBlock_simps [simp]:
  "instObj (catchBlock r) = instObj (snd r)"
  "states (catchBlock r) = states (snd r)"
  "createStates (catchBlock r) = createStates (snd r)"
  "getCalls (trace (catchBlock r)) = getCalls (trace (snd r))"
  "createCalls (trace (catchBlock r)) = createCalls (trace (snd r))"
  "setCalls (trace (catchBlock r)) = setCalls (trace (snd r))"
  "httpCalls (trace (catchBlock r)) = httpCalls (trace (snd r))"
  "foreignWrites (trace (catchBlock r)) = foreignWrites (trace (snd r))"
  "endings (trace (catchBlock r)) = endings (trace (snd r))"
  by (simp_all add: catchBlock_def split: prod.splits option.splits)

lemma adjustSchedule_simps [simp]:
  "states (snd (adjustSchedule fo e w)) = states w"
  "createStates (snd (adjustSchedule fo e w)) = createStates w"
  "getCalls (trace (snd (adjustSchedule fo e w))) = getCalls (trace w)"
  "createCalls (trace (snd (adjustSchedule fo e w))) = createCalls (trace w)"
  "setCalls (trace (snd (adjustSchedule fo e w))) = setCalls (trace w)"
  "httpCalls (trace (snd (adjustSchedule fo e w))) = httpCalls (trace w)"
  "endings (trace (snd (adjustSchedule fo e w))) = endings (trace w)"
  by (simp_all add: adjustSchedule_def Let_def split: option.splits)

lemma cleanup_simps [simp]:
  "states (cleanup fo e w) = states w"
  "createStates (cleanup fo e w) = createStates w"
  "getCalls (trace (cleanup fo e w)) = getCalls (trace w)"
  "createCalls (trace (cleanup fo e w)) = createCalls (trace w)"
  "setCalls (trace (cleanup fo e w)) = setCalls (trace w)"
  "httpCalls (trace (cleanup fo e w)) = httpCalls (trace w)"
  "instObj (cleanup fo e w) = instObj (snd (adjustSchedule fo e w))"
  "foreignWrites (trace (cleanup fo e w)) = foreignWrites (trace (snd (adjustSchedule fo e w)))"
proof -
  obtain t w' where r: "adjustSchedule fo e w = (t, w')" by (cases "adjustSchedule fo e w")
  have "states w' = states w" "createStates w' = createStates w"
    "getCalls (trace w') = getCalls (trace w)" "createCalls (trace w') = createCalls (trace w)"
    "setCalls (trace w') = setCalls (trace w)" "httpCalls (trace w') = httpCalls (trace w)"
    using adjustSchedule_simps(1-6) [of fo e w] by (simp_all add: r)
  then show "states (cleanup fo e w) = states w"
    "createStates (cleanup fo e w) = createStates w"
    "getCalls (trace (cleanup fo e w)) = getCalls (trace w)"
    "createCalls (trace (cleanup fo e w)) = createCalls (trace w)"
    "setCalls (trace (cleanup fo e w)) = setCalls (trace w)"
    "httpCalls (trace (cleanup fo e w)) = httpCalls (trace w)"
    "instObj (cleanup fo e w) = instObj (snd (adjustSchedule fo e w))"
    "foreignWrites (trace (cleanup fo e w)) = foreignWrites (trace (snd (adjustSchedule fo e w)))"
    by (simp_all add: cleanup_def r split: option.splits)
qed

lemma adjustSchedule_returns:
  "fst (adjustSchedule reliable e w) = None"
  by (simp add: adjustSchedule_def reliable_def Let_def split: option.splits)

lemma cleanup_reliable:
  "trace (cleanup reliable e w) = trace (snd (adjustSchedule reliable e w)) @ [Stop]"
  using adjustSchedule_returns [of e w]
  by (cases "adjustSchedule reliable e w") (simp add: cleanup_def)

lemma cleanup_last [simp]: "last (trace (cleanup reliable e w)) = Stop"
  by (simp add: cleanup_reliable)

lemma cleanup_endings:
  "endings (trace (cleanup fo e w))
     = endings (trace w) @
       (if fst (adjustSchedule fo e w) = None then [Stop] else [Rejected (TypeError ''error'')])"
proof -
  obtain t w' where r: "adjustSchedule fo e w = (t, w')" by (cases "adjustSchedule fo e w")
  have "endings (trace w') = endings (trace w)"
    using adjustSchedule_simps(7) [of fo e w] by (simp add: r)
  then show ?thesis
    by (simp add: cleanup_def r split: option.splits)
qed

lemma publishFlow_frame [simp]:
  "instObj (snd (publishFlow site pf w)) = instObj w"
  "createStates (snd (publishFlow site pf w)) = createStates w"
  "getCalls (trace (snd (publishFlow site pf w))) = getCalls (trace w)"
  "createCalls (trace (snd (publishFlow site pf w))) = createCalls (trace w)"
  "httpCalls (trace (snd (publishFlow site pf w))) = httpCalls (trace w)"
  "foreignWrites (trace (snd (publishFlow site pf w))) = foreignWrites (trace w)"
  "endings (trace (snd (publishFlow site pf w))) = endings (trace w)"
  "logsAt lv (trace (snd (publishFlow site pf w))) = logsAt lv (trace w)"
  by (simp_all add: publishFlow_def case_prod_beta del: publishAll.simps)

lemma publishFlow_grows:
  "grows s (states w) \<Longrightarrow> grows s (states (snd (publishFlow site pf w)))"
  by (simp add: publishFlow_def case_prod_beta publishAll_grows del: publishAll.simps)

lemma powerFlowBranch_frame [simp]:
  "instObj (snd (powerFlowBranch cfg e site key w)) = instObj w"
  "getCalls (trace (snd (powerFlowBranch cfg e site key w)))
     = getCalls (trace w) @ map (Pair site) (activeCatalog (currentPowerFlow cfg))"
  "createCalls (trace (snd (powerFlowBranch cfg e site key w))) = createCalls (trace w)"
  "httpCalls (trace (snd (powerFlowBranch cfg e site key w))) = httpCalls (trace w) @ [powerFlowUrl site key]"
  "foreignWrites (trace (snd (powerFlowBranch cfg e site key w))) = foreignWrites (trace w)"
  "endings (trace (snd (powerFlowBranch cfg e site key w))) = endings (trace w)"
  "truthy (createStates (snd (powerFlowBranch cfg e site key w)))
     = ((\<exists>n\<in>set (activeCatalog (currentPowerFlow cfg)). states w (site, n) = None)
        \<or> truthy (createStates w))"
  by (simp_all add: powerFlowBranch_def Let_def split: http_result.splits option.splits)

lemma powerFlowBranch_grows:
  "grows s (states w) \<Longrightarrow> grows s (states (snd (powerFlowBranch cfg e site key w)))"
  by (simp add: powerFlowBranch_def Let_def publishFlow_grows split: http_result.splits option.splits)

lemma tryBlock_eq:
  "tryBlock cfg e site key w =
     (case overviewPart cfg e site key w of
        (Some x, w2) \<Rightarrow> (Some x, w2)
      | (None, w2) \<Rightarrow>
          if currentPowerFlow cfg then powerFlowBranch cfg e site key w2 else (None, w2))"
  by (simp add: tryBlock_def overviewPart_def Let_def split: http_result.splits)

lemma overviewPart_frame [simp]:
  "instObj (snd (overviewPart cfg e site key w)) = instObj w"
  "getCalls (trace (snd (overviewPart cfg e site key w))) = getCalls (trace w)"
  "httpCalls (trace (snd (overviewPart cfg e site key w))) = httpCalls (trace w) @ [overviewUrl site key]"
  "foreignWrites (trace (snd (overviewPart cfg e site key w))) = foreignWrites (trace w)"
  "endings (trace (snd (overviewPart cfg e site key w))) = endings (trace w)"
  by (simp_all add: overviewPart_def Let_def split: http_result.splits option.splits)

lemma overviewPart_creates:
  "createCalls (trace (snd (overviewPart cfg e site key w)))
     = createCalls (trace w) @
       (if overviewUsable e \<and> truthy (createStates w)
        then map (Pair site) (createdCatalog (currentPowerFlow cfg)) else [])"
  by (auto simp: overviewPart_def overviewUsable_def overviewBranch_creates Let_def
           split: http_result.splits option.splits)

lemma overviewPart_flag:
  "truthy (createStates (snd (overviewPart cfg e site key w)))
     = (truthy (createStates w) \<and> \<not> overviewUsable e)"
  by (auto simp: overviewPart_def overviewUsable_def overviewBranch_flag Let_def
           split: http_result.splits option.splits)

lemma overviewPart_grows:
  "grows s (states w) \<Longrightarrow> grows s (states (snd (overviewPart cfg e site key w)))"
  by (simp add: overviewPart_def Let_def overviewBranch_grows split: http_result.splits option.splits)

lemma overviewPart_created_dom:
  assumes "overviewUsable e" "truthy (createStates w)"
  shows "Pair site ` set (activeCatalog (currentPowerFlow cfg))
           \<subseteq> dom (states (snd (overviewPart cfg e site key w)))"
proof -
  obtain ov p where ov: "overviewFetch e = Response (Some (Some ov))" "ov_currentPower ov = Some p"
    using assms(1) by (auto simp: overviewUsable_def split: http_result.splits option.splits)
  have "Pair site ` set (createdCatalog (currentPowerFlow cfg))
          \<subseteq> dom (states (snd (overviewBranch (currentPowerFlow cfg) site (Some ov)
                (emit (HttpGet (overviewUrl site key)) w))))"
    by (rule overviewBranch_created_dom [OF refl ov(2)]) (simp add: assms(2))
  then show ?thesis
    by (simp add: overviewPart_def Let_def ov catalog_sets)
qed

lemma tryBlock_frame [simp]:
  "instObj (snd (tryBlock cfg e site key w)) = instObj w"
  "foreignWrites (trace (snd (tryBlock cfg e site key w))) = foreignWrites (trace w)"
  "endings (trace (snd (tryBlock cfg e site key w))) = endings (trace w)"
proof -
  obtain t w2 where r: "overviewPart cfg e site key w = (t, w2)" by (cases "overviewPart cfg e site key w")
  have "instObj w2 = instObj w" "foreignWrites (trace w2) = foreignWrites (trace w)"
    "endings (trace w2) = endings (trace w)"
    using overviewPart_frame(1,4,5) [of cfg e site key w] by (simp_all add: r)
  then show "instObj (snd (tryBlock cfg e site key w)) = instObj w"
    "foreignWrites (trace (snd (tryBlock cfg e site key w))) = foreignWrites (trace w)"
    "endings (trace (snd (tryBlock cfg e site key w))) = endings (trace w)"
    by (simp_all add: tryBlock_eq r split: option.splits)
qed

lemma tryBlock_grows:
  assumes "grows s (states w)"
  shows "grows s (states (snd (tryBlock cfg e site key w)))"
proof -
  obtain t w2 where r: "overviewPart cfg e site key w = (t, w2)"
    by (cases "overviewPart cfg e site key w")
  have "grows s (states w2)"
    using overviewPart_grows [OF assms, of cfg e site key] by (simp add: r)
  then show ?thesis
    by (simp add: tryBlock_eq r powerFlowBranch_grows split: option.splits)
qed

lemma tryBlock_creates:
  "createCalls (trace (snd (tryBlock cfg e site key w)))
     = createCalls (trace w) @
       (if overviewUsable e \<and> truthy (createStates w)
        then map (Pair site) (createdCatalog (currentPowerFlow cfg)) else [])"
proof -
  obtain t w2 where r: "overviewPart cfg e site key w = (t, w2)"
    by (cases "overviewPart cfg e site key w")
  have "createCalls (trace w2)
          = createCalls (trace w) @
            (if overviewUsable e \<and> truthy (createStates w)
             then map (Pair site) (createdCatalog (currentPowerFlow cfg)) else [])"
    using overviewPart_creates [of cfg e site key w] by (simp add: r)
  then show ?thesis
    by (simp add: tryBlock_eq r split: option.splits)
qed

lemma tryBlock_settled:
  assumes "(\<forall>n\<in>set (activeCatalog (currentPowerFlow cfg)). states w (site, n) \<noteq> None)
             \<or> truthy (createStates w)"
    and "truthy (createStates w) \<longrightarrow> overviewUsable e"
  shows "settled (currentPowerFlow cfg) site (snd (tryBlock cfg e site key w))"
proof -
  let ?A = "activeCatalog (currentPowerFlow cfg)"
  obtain t w2 where r: "overviewPart cfg e site key w = (t, w2)"
    by (cases "overviewPart cfg e site key w")
  have flag2: "\<not> truthy (createStates w2)"
    using overviewPart_flag [of cfg e site key w] assms(2) by (simp add: r)
  have all2: "\<forall>n\<in>set ?A. states w2 (site, n) \<noteq> None"
  proof (cases "truthy (createStates w)")
    case True
    then have "Pair site ` set ?A \<subseteq> dom (states w2)"
      using overviewPart_created_dom [of e w site cfg key] assms(2) by (simp add: r)
    then show ?thesis by (auto simp: dom_def)
  next
    case False
    then have "\<forall>n\<in>set ?A. states w (site, n) \<noteq> None" using assms(1) by blast
    moreover have "grows (states w) (states w2)"
      using overviewPart_grows [of "states w" w cfg e site key] by (simp add: r)
    ultimately show ?thesis by (simp add: grows_def)
  qed
  show ?thesis
  proof (cases "t = None \<and> currentPowerFlow cfg")
    case True
    then have eq: "tryBlock cfg e site key w = powerFlowBranch cfg e site key w2"
      by (simp add: tryBlock_eq r)
    have "grows (states w2) (states (snd (powerFlowBranch cfg e site key w2)))"
      by (rule powerFlowBranch_grows) simp
    then show ?thesis
      using flag2 all2 by (simp add: eq settled_def grows_def)
  next
    case False
    then have "snd (tryBlock cfg e site key w) = w2"
      by (auto simp: tryBlock_eq r split: option.splits)
    then show ?thesis using flag2 all2 by (simp add: settled_def)
  qed
qed

lemma main_valid:
  assumes "validCredentials cfg site key"
  shows "main fo cfg e w =
     cleanup fo e (adapter_log Debug Done (catchBlock (tryBlock cfg e site key
       (checkStatesCreationNeeded (currentPowerFlow cfg) site
         (adapter_log Debug (ApiKeyPrefix (take 4 key))
           (adapter_log Debug (SiteId (Some site)) w))))))"
  using assms by (simp add: validCredentials_def main_def Let_def)

lemma main_invalid:
  assumes "\<not> (\<exists>site key. validCredentials cfg site key)"
  shows "main fo cfg e w =
     adapter_log Error CredentialsNotSet
       (adapter_log Debug
          (case apikey cfg of
             None \<Rightarrow> ApiKeyNotSet
           | Some k \<Rightarrow> if k = [] then ApiKeyNotSet else ApiKeyPrefix (take 4 k))
          (adapter_log Debug (SiteId (siteid cfg)) w))"
  using assms by (auto simp: validCredentials_def main_def Let_def split: option.splits)

lemma run_creates:
  assumes "validCredentials cfg site key"
  shows "createCalls (trace (run cfg e w))
     = (if overviewUsable e \<and>
           ((\<exists>n\<in>set (activeCatalog (currentPowerFlow cfg)). states w (site, n) = None)
            \<or> truthy (createStates w))
        then map (Pair site) (createdCatalog (currentPowerFlow cfg)) else [])"
  by (simp add: run_def main_valid [OF assms] tryBlock_creates)

lemma run_settled:
  assumes "validCredentials cfg site key" "overviewUsable e"
  shows "settled (currentPowerFlow cfg) site (run cfg e w)"
proof -
  let ?w3 = "checkStatesCreationNeeded (currentPowerFlow cfg) site
         (adapter_log Debug (ApiKeyPrefix (take 4 key))
           (adapter_log Debug (SiteId (Some site)) (w\<lparr>trace := []\<rparr>)))"
  have "settled (currentPowerFlow cfg) site (snd (tryBlock cfg e site key ?w3))"
    by (rule tryBlock_settled) (auto simp: assms(2))
  then show ?thesis
    by (simp add: run_def main_valid [OF assms(1)] settled_def)
qed

lemma run_grows: "grows (states w) (states (run cfg e w))"
proof (cases "\<exists>site key. validCredentials cfg site key")
  case True
  then obtain site key where v: "validCredentials cfg site key" by blast
  show ?thesis
    by (simp add: run_def main_valid [OF v] tryBlock_grows)
next
  case False
  then show ?thesis by (simp add: run_def main_invalid)
qed

lemma lower_targets:
  "toLowerCase ''LOAD'' = ''load''" "toLowerCase ''GRID'' = ''grid''"
  "toLowerCase ''STORAGE'' = ''storage''"
  by code_simp+

lemma lower_examples:
  "toLowerCase ''Load'' = ''load''" "toLowerCase ''Grid'' = ''grid''" "toLowerCase ''pv'' = ''pv''"
  by code_simp+

lemma scanConnections_eq:
  "scanConnections cs (g, b) =
     (g \<or> (\<exists>c\<in>set cs. toLowerCase (edge_from c) = ''load'' \<and> toLowerCase (edge_to c) = ''grid''),
      b \<or> (\<exists>c\<in>set cs. toLowerCase (edge_from c) = ''load'' \<and> toLowerCase (edge_to c) = ''storage''))"
  by (induction cs arbitrary: g b) auto

lemma numberToString_examples:
  "numberToString 0 = ''0''" "numberToString 7 = ''7''" "numberToString 30 = ''30''" "numberToString 59 = ''59''"
  by code_simp+

lemma check_logs [simp]:
  assumes "lv \<noteq> Info" "lv \<noteq> Debug"
  shows "logsAt lv (trace (checkStateCreationNeeded site n w)) = logsAt lv (trace w)"
    and "logsAt lv (trace (fold (checkStateCreationNeeded site) ns w)) = logsAt lv (trace w)"
    and "logsAt lv (trace (checkStatesCreationNeeded flag site w)) = logsAt lv (trace w)"
proof -
  show one: "logsAt lv (trace (checkStateCreationNeeded site n w)) = logsAt lv (trace w)" for n w
    using assms by (simp add: checkStateCreationNeeded_def Let_def split: option.splits)
  show many: "logsAt lv (trace (fold (checkStateCreationNeeded site) ns w)) = logsAt lv (trace w)" for ns w
    by (induction ns arbitrary: w) (simp_all add: one)
  show "logsAt lv (trace (checkStatesCreationNeeded flag site w)) = logsAt lv (trace w)"
    by (simp add: checkStatesCreationNeeded_def Let_def many)
qed

lemma adjustSchedule_logs [simp]:
  "lv \<noteq> Info \<Longrightarrow> logsAt lv (trace (snd (adjustSchedule fo e w))) = logsAt lv (trace w)"
  by (simp add: adjustSchedule_def Let_def split: option.splits)

lemma cleanup_logs [simp]:
  assumes "lv \<noteq> Info"
  shows "logsAt lv (trace (cleanup fo e w)) = logsAt lv (trace w)"
proof -
  obtain t w' where r: "adjustSchedule fo e w = (t, w')" by (cases "adjustSchedule fo e w")
  have "logsAt lv (trace w') = logsAt lv (trace w)"
    using adjustSchedule_logs [OF assms, of fo e w] by (simp add: r)
  then show ?thesis
    by (simp add: cleanup_def r split: option.splits)
qed

lemma sample_valid [simp]:
  "validCredentials cfgFlow ''1234'' ''ABCDEF''" "validCredentials cfgBase ''1234'' ''ABCDEF''"
  by (simp_all add: validCredentials_def cfgFlow_def cfgBase_def)

lemma sample_usable [simp]:
  "overviewUsable envOk" "\<not> overviewUsable envOverviewThrows" "\<not> overviewUsable envEmptyBody"
  by (simp_all add: overviewUsable_def envOk_def envWith_def sampleOverview_def
        envOverviewThrows_def envEmptyBody_def)

lemma sample_fields [simp]:
  "currentPowerFlow cfgFlow" "\<not> currentPowerFlow cfgBase"
  "overviewFetch envOk = Response (Some (Some sampleOverview))"
  "powerFlowFetch envOk = Response (Some None)"
  "overviewFetch envOverviewThrows = Throws (TransportError ''timeout'')"
  "overviewFetch envEmptyBody = Response None"
  "powerFlowFetch envEmptyBody = Response (Some None)"
  "ov_currentPower sampleOverview = Some (JNum 1500)"
  by (simp_all add: cfgFlow_def cfgBase_def envOk_def envWith_def envOverviewThrows_def
        envEmptyBody_def sampleOverview_def)

lemma empty_missing [simp]:
  "\<exists>n\<in>set (activeCatalog flag). states emptyWorld (site, n) = None"
  by (rule bexI [of _ "''lastUpdateTime''"]) (simp_all add: emptyWorld_def activeCatalog_def baseStates_def)

lemma run_empty_body_states:
  "states (run cfgBase envEmptyBody w) = states w"
  by (simp add: run_def main_valid [OF sample_valid(2)] tryBlock_def Let_def)

lemma tryBlock_gets:
  "set (getCalls (trace (snd (tryBlock cfg e site key w))))
     \<subseteq> set (getCalls (trace w)) \<union> Pair site ` set (activeCatalog (currentPowerFlow cfg))"
proof -
  obtain t w2 where r: "overviewPart cfg e site key w = (t, w2)"
    by (cases "overviewPart cfg e site key w")
  have "getCalls (trace w2) = getCalls (trace w)"
    using overviewPart_frame(2) [of cfg e site key w] by (simp add: r)
  then show ?thesis
    by (auto simp: tryBlock_eq r split: option.splits)
qed

lemma tryBlock_gets_keeps:
  "set (getCalls (trace w)) \<subseteq> set (getCalls (trace (snd (tryBlock cfg e site key w))))"
proof -
  obtain t w2 where r: "overviewPart cfg e site key w = (t, w2)"
    by (cases "overviewPart cfg e site key w")
  have "getCalls (trace w2) = getCalls (trace w)"
    using overviewPart_frame(2) [of cfg e site key w] by (simp add: r)
  then show ?thesis
    by (auto simp: tryBlock_eq r split: option.splits)
qed

lemma run_gets:
  assumes "validCredentials cfg site key"
  shows "set (getCalls (trace (run cfg e w))) = Pair site ` set (activeCatalog (currentPowerFlow cfg))"
proof -
  let ?w3 = "checkStatesCreationNeeded (currentPowerFlow cfg) site
         (adapter_log Debug (ApiKeyPrefix (take 4 key))
           (adapter_log Debug (SiteId (Some site)) (w\<lparr>trace := []\<rparr>)))"
  have g3: "set (getCalls (trace ?w3)) = Pair site ` set (activeCatalog (currentPowerFlow cfg))"
    by simp
  have "set (getCalls (trace (snd (tryBlock cfg e site key ?w3))))
          = Pair site ` set (activeCatalog (currentPowerFlow cfg))"
    using tryBlock_gets [of cfg e site key ?w3] tryBlock_gets_keeps [of ?w3 cfg e site key]
    unfolding g3 by blast
  then show ?thesis
    by (simp add: run_def main_valid [OF assms])
qed

lemma base_not_flow: "n \<in> set baseStates \<Longrightarrow> n \<notin> set flowStatesChecked"
  by (auto simp: baseStates_def flowStatesChecked_def)

lemma adjustSchedule_read_throws:
  assumes "getForeignObjectThrows fo = Some x"
  shows "adjustSchedule fo e w = (Some x, emit GetForeignObject w)"
  using assms by (simp add: adjustSchedule_def Let_def)

lemma adjustSchedule_keeps:
  assumes "getForeignObjectThrows fo = None" "storedSchedule w \<noteq> Some defaultSchedule"
  shows "adjustSchedule fo e w = (None, emit GetForeignObject w)"
  using assms by (auto simp: adjustSchedule_def storedSchedule_def Let_def split: option.splits)

lemma adjustSchedule_rewrites:
  assumes "getForeignObjectThrows fo = None"
    and "instObj w = Some obj" "common obj = Some c" "schedule c = Some defaultSchedule"
  shows "adjustSchedule fo e w =
     (setForeignObjectThrows fo,
      (emit (SetForeignObject (rescheduled e obj c))
         (adapter_log Info ScheduleAdjusted (emit GetForeignObject w)))
        \<lparr>instObj := (if setForeignObjectThrows fo = None
                      then Some (rescheduled e obj c) else Some obj)\<rparr>)"
  using assms
  by (simp add: adjustSchedule_def Let_def defaultSchedule_def emit_def adapter_log_def
        split: option.splits)

lemma storedSchedule_default:
  assumes "storedSchedule w = Some defaultSchedule"
  obtains obj c where "instObj w = Some obj" "common obj = Some c" "schedule c = Some defaultSchedule"
  using assms by (auto simp: storedSchedule_def split: option.splits)

lemma storedSchedule_cong: "instObj w = instObj w' \<Longrightarrow> storedSchedule w = storedSchedule w'"
  by (simp add: storedSchedule_def)

text \<open>The three ways the schedule step can end, with the calls it makes.\<close>

lemma cleanup_read_throws:
  assumes "getForeignObjectThrows fo = Some x"
  shows "trace (cleanup fo e w) = trace w @ [GetForeignObject, Rejected (TypeError ''error'')]"
    and "instObj (cleanup fo e w) = instObj w"
    and "foreignWrites (trace (cleanup fo e w)) = foreignWrites (trace w)"
  by (simp_all add: cleanup_def adjustSchedule_read_throws [OF assms])

lemma cleanup_keeps:
  assumes "getForeignObjectThrows fo = None" "storedSchedule w \<noteq> Some defaultSchedule"
  shows "trace (cleanup fo e w) = trace w @ [GetForeignObject, Stop]"
    and "instObj (cleanup fo e w) = instObj w"
    and "foreignWrites (trace (cleanup fo e w)) = foreignWrites (trace w)"
  by (simp_all add: cleanup_def adjustSchedule_keeps [OF assms])

lemma cleanup_rewrites:
  assumes "getForeignObjectThrows fo = None"
    and "instObj w = Some obj" "common obj = Some c" "schedule c = Some defaultSchedule"
  shows "trace (cleanup fo e w) = trace w @
           [GetForeignObject, Log Info ScheduleAdjusted, SetForeignObject (rescheduled e obj c),
            (if setForeignObjectThrows fo = None then Stop else Rejected (TypeError ''error''))]"
    and "instObj (cleanup fo e w)
           = (if setForeignObjectThrows fo = None then Some (rescheduled e obj c) else instObj w)"
    and "foreignWrites (trace (cleanup fo e w)) = foreignWrites (trace w) @ [rescheduled e obj c]"
  using assms(2)
  by (auto simp add: cleanup_def adjustSchedule_rewrites [OF assms] split: option.splits)

text \<open>
  The binary64 product of a number below 1 and 60 is below 60: rounding adds at most half
  a unit in the last place, and the largest number below 1 is more than that away.
\<close>

lemma bitLength_le: "n < 2 ^ j \<Longrightarrow> bitLength n \<le> j"
proof (induction j arbitrary: n)
  case 0
  then show ?case by (simp add: bitLength.simps)
next
  case (Suc j)
  show ?case
  proof (cases "n = 0")
    case True
    then show ?thesis by (simp add: bitLength.simps)
  next
    case False
    have "n div 2 < 2 ^ j" using Suc.prems by simp
    then have "bitLength (n div 2) \<le> j" by (rule Suc.IH)
    then show ?thesis using False by (subst bitLength.simps) simp
  qed
qed

lemma roundShift_bound: "2 * (roundShift m s * 2 ^ s) \<le> 2 * m + 2 ^ s"
proof -
  define p :: nat where "p = 2 ^ s"
  define q where "q = m div p"
  define r where "r = m mod p"
  have m: "m = q * p + r" unfolding q_def r_def by (rule div_mult_mod_eq [symmetric])
  have rs: "roundShift m s = (if p < 2 * r \<or> (2 * r = p \<and> odd q) then q + 1 else q)"
    by (simp add: roundShift_def Let_def p_def q_def r_def)
  have "2 * (roundShift m s * p) \<le> 2 * m + p"
  proof (cases "p < 2 * r \<or> (2 * r = p \<and> odd q)")
    case True
    then have "p \<le> 2 * r" by auto
    then have "2 * ((q + 1) * p) \<le> 2 * (q * p + r) + p" by (simp add: algebra_simps)
    moreover have "roundShift m s = q + 1" using True by (simp only: rs if_True)
    ultimately show ?thesis using m by simp
  next
    case False
    have "2 * (q * p) \<le> 2 * (q * p + r) + p" by simp
    moreover have "roundShift m s = q" using False by (simp only: rs if_False)
    ultimately show ?thesis using m by simp
  qed
  then show ?thesis by (simp only: p_def)
qed

lemma secondsOffset_bound:
  assumes "isRandom r"
  shows "secondsOffset r \<le> 59"
proof -
  let ?m = "significand r * 60"
  let ?s = "bitLength ?m - 53"
  let ?k = "shift r"
  have m53: "significand r < 2 ^ 53" and k: "53 \<le> ?k"
    using assms by (simp_all add: isRandom_def)
  have pw: "(2::nat) ^ 53 \<le> 2 ^ ?k" using k by (intro power_increasing) simp_all
  have "?m < 2 ^ 59" using m53 by simp
  then have "bitLength ?m \<le> 59" by (rule bitLength_le)
  then have s6: "?s \<le> 6" by simp
  then have "(2::nat) ^ ?s \<le> 2 ^ 6" by (intro power_increasing) simp_all
  then have p: "(2::nat) ^ ?s \<le> 64" by simp
  have "2 * (roundShift ?m ?s * 2 ^ ?s) \<le> 2 * ?m + 2 ^ ?s" by (rule roundShift_bound)
  also have "\<dots> \<le> 2 * ?m + 64" using p by simp
  also have "\<dots> < 2 * (60 * 2 ^ 53)" using m53 by simp
  also have "\<dots> \<le> 2 * (60 * 2 ^ ?k)" using pw by simp
  finally have lt: "roundShift ?m ?s * 2 ^ ?s < 60 * 2 ^ ?k" by (simp add: mult.commute)
  have sk: "?s \<le> ?k" using s6 k by simp
  then have "(2::nat) ^ ?k = 2 ^ (?k - ?s) * 2 ^ ?s" by (simp add: power_add [symmetric])
  then have "roundShift ?m ?s * 2 ^ ?s < (60 * 2 ^ (?k - ?s)) * 2 ^ ?s" using lt by simp
  then have "roundShift ?m ?s < 60 * 2 ^ (?k - ?s)" by simp
  then have "roundShift ?m ?s div 2 ^ (?k - ?s) < 60"
    by (simp add: less_mult_imp_div_less)
  then show ?thesis
    by (simp add: secondsOffset_def mathFloor_def times60_def Let_def)
qed

lemma bitLength_examples:
  "bitLength 270215977642229760 = 58"
  "bitLength 324259173170675700 = 59"
  "bitLength 540431955284459460 = 59"
  "bitLength 0 = 0"
  by (simp_all add: bitLength.simps)

text \<open>
  One half gives 30 and the largest number below 1 gives 59. The binary64 number nearest
  to 0.15 gives 9: its exact product with 60 is just below 9 and rounds up to 9.
\<close>

lemma seconds_examples:
  "secondsOffset \<lparr>significand = 4503599627370496, shift = 53\<rparr> = 30"
  "secondsOffset \<lparr>significand = 5404319552844595, shift = 55\<rparr> = 9"
  "secondsOffset \<lparr>significand = 9007199254740991, shift = 53\<rparr> = 59"
  "secondsOffset \<lparr>significand = 0, shift = 53\<rparr> = 0"
  by (simp_all add: secondsOffset_def mathFloor_def times60_def roundShift_def Let_def
        bitLength_examples)

lemma exact_product_below_nine: "(5404319552844595 * 60) div 2 ^ 55 = (8::nat)"
  by simp

lemma half_minute:
  "isRandom (random envOk)"
  "numberToString (secondsOffset (random envOk)) = ''30''"
  by (simp_all add: envOk_def envWith_def isRandom_def seconds_examples numberToString_examples)

lemma run_runWith: "run cfg e w = runWith reliable cfg e w"
  by (simp add: run_def runWith_def)

lemma reliable_fields [simp]:
  "getForeignObjectThrows reliable = None" "setForeignObjectThrows reliable = None"
  "getForeignObjectThrows readThrows = Some (TransportError ''connection lost'')"
  by (simp_all add: reliable_def readThrows_def)




lemma catchBlock_logs [simp]:
  "lv \<noteq> Error \<Longrightarrow> logsAt lv (trace (catchBlock r)) = logsAt lv (trace (snd r))"
  by (simp add: catchBlock_def split: prod.splits option.splits)

lemma powerFlowBranch_logs [simp]:
  "lv \<noteq> Info \<Longrightarrow> lv \<noteq> Debug \<Longrightarrow>
     logsAt lv (trace (snd (powerFlowBranch cfg e site key w))) = logsAt lv (trace w)"
  by (simp add: powerFlowBranch_def Let_def split: http_result.splits option.splits)


lemma sample_fields2 [simp]:
  "overviewFetch envNoOverview = Response (Some None)"
  "overviewFetch envNoCurrentPower = Response (Some (Some (sampleOverview\<lparr>ov_currentPower := None\<rparr>)))"
  by (simp_all add: envNoOverview_def envNoCurrentPower_def envWith_def)

lemma scan_refines_spec:
  "scanConnections cs (False, False) = (spec_feedToGrid cs, spec_feedToBattery cs)"
  by (simp add: scanConnections_eq spec_feedToGrid_def spec_feedToBattery_def eqIgnoreCase_def
        lower_targets)

text \<open>
  What the power-flow block publishes. With a \<^verbatim>\<open>STORAGE\<close> node all thirteen values are
  written, absent nodes giving 0 and \<open>unknown\<close>. Without it the block stops at line 320.
\<close>

lemma publishFlow_storage_present:
  assumes "pf_STORAGE pf = Some s"
  shows "fst (publishFlow site pf w) = None"
    and "setCalls (trace (snd (publishFlow site pf w))) = setCalls (trace w) @
           [((site, ''currentFlowGrid''), powerOr0 (pf_GRID pf)),
            ((site, ''currentFlowLoad''), powerOr0 (pf_LOAD pf)),
            ((site, ''currentFlowPv''), powerOr0 (pf_PV pf)),
            ((site, ''powerUnit''), pf_unit pf),
            ((site, ''feedToBattery''), JBool (spec_feedToBattery (edgesOf pf))),
            ((site, ''batteryStatus''), node_status s),
            ((site, ''batteryPowerFlow''), node_currentPower s),
            ((site, ''batteryChargeLevel''), node_chargeLevel s),
            ((site, ''feedToGrid''), JBool (spec_feedToGrid (edgesOf pf))),
            ((site, ''gridPowerFlow''), powerOr0 (pf_GRID pf)),
            ((site, ''housePowerFlow''), powerOr0 (pf_LOAD pf)),
            ((site, ''pvPowerFlow''), powerOr0 (pf_PV pf)),
            ((site, ''pvStatus''), statusOrUnknown (pf_PV pf))]"
  using assms
  by (simp_all add: publishFlow_def scan_refines_spec edgesOf_def [symmetric]
        powerOr0_def statusOrUnknown_def)

lemma publishFlow_storage_absent:
  assumes "pf_STORAGE pf = None"
  shows "fst (publishFlow site pf w) = Some (TypeError ''chargeLevel'')"
    and "setCalls (trace (snd (publishFlow site pf w))) = setCalls (trace w) @
           [((site, ''currentFlowGrid''), powerOr0 (pf_GRID pf)),
            ((site, ''currentFlowLoad''), powerOr0 (pf_LOAD pf)),
            ((site, ''currentFlowPv''), powerOr0 (pf_PV pf)),
            ((site, ''powerUnit''), pf_unit pf),
            ((site, ''feedToBattery''), JBool (spec_feedToBattery (edgesOf pf))),
            ((site, ''batteryStatus''), JStr ''unknown''),
            ((site, ''batteryPowerFlow''), JNum 0)]"
  using assms
  by (simp_all add: publishFlow_def scan_refines_spec edgesOf_def [symmetric]
        powerOr0_def statusOrUnknown_def)

lemma run_no_storage:
  "setCalls (trace (run cfgFlow (envNoStorage cs) w)) =
     [((''1234'', ''lastUpdateTime''), JStr ''2023-06-01 12:00:00''),
      ((''1234'', ''currentPower''), JNum 1500),
      ((''1234'', ''lifeTimeData''), JNum 9000000),
      ((''1234'', ''lastYearData''), JNum 4000000),
      ((''1234'', ''lastMonthData''), JNum 300000),
      ((''1234'', ''lastDayData''), JNum 12000),
      ((''1234'', ''currentFlowGrid''), JNum 1),
      ((''1234'', ''currentFlowLoad''), JNum 2),
      ((''1234'', ''currentFlowPv''), JNum 3),
      ((''1234'', ''powerUnit''), JStr ''kW''),
      ((''1234'', ''feedToBattery''), JBool (spec_feedToBattery cs)),
      ((''1234'', ''batteryStatus''), JStr ''unknown''),
      ((''1234'', ''batteryPowerFlow''), JNum 0)]"
  "logsAt Error (trace (run cfgFlow (envNoStorage cs) w)) = [CannotRead (TypeError ''chargeLevel'')]"
  "last (trace (run cfgFlow (envNoStorage cs) w)) = Stop"
proof -
  let ?e = "envNoStorage cs"
  let ?w3 = "checkStatesCreationNeeded True ''1234''
         (adapter_log Debug (ApiKeyPrefix ''ABCD'')
           (adapter_log Debug (SiteId (Some ''1234'')) (w\<lparr>trace := []\<rparr>)))"
  have f: "overviewFetch ?e = Response (Some (Some sampleOverview))"
    "powerFlowFetch ?e = Response (Some (Some (flowNoStorage cs)))"
    by (simp_all add: envNoStorage_def envWith_def)
  have ns: "pf_STORAGE (flowNoStorage cs) = None" "edgesOf (flowNoStorage cs) = cs"
    "pf_GRID (flowNoStorage cs) = Some (sampleNode 1)" "pf_LOAD (flowNoStorage cs) = Some (sampleNode 2)"
    "pf_PV (flowNoStorage cs) = Some (sampleNode 3)" "pf_unit (flowNoStorage cs) = JStr ''kW''"
    by (simp_all add: flowNoStorage_def edgesOf_def)
  obtain W where W: "tryBlock cfgFlow ?e ''1234'' ''ABCDEF'' ?w3 = (Some (TypeError ''chargeLevel''), W)"
    and sets: "setCalls (trace W) =
     [((''1234'', ''lastUpdateTime''), JStr ''2023-06-01 12:00:00''),
      ((''1234'', ''currentPower''), JNum 1500),
      ((''1234'', ''lifeTimeData''), JNum 9000000),
      ((''1234'', ''lastYearData''), JNum 4000000),
      ((''1234'', ''lastMonthData''), JNum 300000),
      ((''1234'', ''lastDayData''), JNum 12000),
      ((''1234'', ''currentFlowGrid''), JNum 1),
      ((''1234'', ''currentFlowLoad''), JNum 2),
      ((''1234'', ''currentFlowPv''), JNum 3),
      ((''1234'', ''powerUnit''), JStr ''kW''),
      ((''1234'', ''feedToBattery''), JBool (spec_feedToBattery cs)),
      ((''1234'', ''batteryStatus''), JStr ''unknown''),
      ((''1234'', ''batteryPowerFlow''), JNum 0)]"
    and errs: "logsAt Error (trace W) = []"
  proof
    let ?W = "snd (tryBlock cfgFlow ?e ''1234'' ''ABCDEF'' ?w3)"
    let ?w2 = "snd (overviewBranch True ''1234'' (Some sampleOverview)
                 (emit (HttpGet (overviewUrl ''1234'' ''ABCDEF'')) ?w3))"
    let ?wf = "emit (HttpGet (powerFlowUrl ''1234'' ''ABCDEF''))
                 (checkStatesCreationNeeded True ''1234'' ?w2)"
    have ob: "fst (overviewBranch True ''1234'' (Some sampleOverview)
                 (emit (HttpGet (overviewUrl ''1234'' ''ABCDEF'')) ?w3)) = None"
      by (simp add: overviewBranch_def sampleOverview_def energyOf_def Let_def)
    have t: "tryBlock cfgFlow ?e ''1234'' ''ABCDEF'' ?w3 = publishFlow ''1234'' (flowNoStorage cs) ?wf"
      using ob by (auto simp: tryBlock_def powerFlowBranch_def f Let_def split: prod.splits option.splits)
    have s2: "setCalls (trace ?w2) =
      [((''1234'', ''lastUpdateTime''), JStr ''2023-06-01 12:00:00''),
      ((''1234'', ''currentPower''), JNum 1500),
      ((''1234'', ''lifeTimeData''), JNum 9000000),
      ((''1234'', ''lastYearData''), JNum 4000000),
      ((''1234'', ''lastMonthData''), JNum 300000),
      ((''1234'', ''lastDayData''), JNum 12000)]"
      by (simp add: overviewBranch_def sampleOverview_def energyOf_def Let_def)
    have l2: "logsAt Error (trace ?w2) = []"
      by (simp add: overviewBranch_def sampleOverview_def energyOf_def Let_def)
    show "tryBlock cfgFlow ?e ''1234'' ''ABCDEF'' ?w3 = (Some (TypeError ''chargeLevel''), ?W)"
      unfolding t using publishFlow_storage_absent(1) [OF ns(1), of "''1234''" ?wf]
      by (simp add: prod_eq_iff)
    show "setCalls (trace ?W) =
     [((''1234'', ''lastUpdateTime''), JStr ''2023-06-01 12:00:00''),
      ((''1234'', ''currentPower''), JNum 1500),
      ((''1234'', ''lifeTimeData''), JNum 9000000),
      ((''1234'', ''lastYearData''), JNum 4000000),
      ((''1234'', ''lastMonthData''), JNum 300000),
      ((''1234'', ''lastDayData''), JNum 12000),
      ((''1234'', ''currentFlowGrid''), JNum 1),
      ((''1234'', ''currentFlowLoad''), JNum 2),
      ((''1234'', ''currentFlowPv''), JNum 3),
      ((''1234'', ''powerUnit''), JStr ''kW''),
      ((''1234'', ''feedToBattery''), JBool (spec_feedToBattery cs)),
      ((''1234'', ''batteryStatus''), JStr ''unknown''),
      ((''1234'', ''batteryPowerFlow''), JNum 0)]"
      unfolding t publishFlow_storage_absent(2) [OF ns(1)]
      by (simp add: s2 ns powerOr0_def sampleNode_def)
    show "logsAt Error (trace ?W) = []"
      unfolding t by (simp add: l2)
  qed
  have r: "run cfgFlow ?e w = cleanup reliable ?e (adapter_log Debug Done
             (adapter_log Error (CannotRead (TypeError ''chargeLevel'')) W))"
    by (simp add: run_def main_valid [OF sample_valid(1)] W catchBlock_def)
  show "setCalls (trace (run cfgFlow ?e w)) =
     [((''1234'', ''lastUpdateTime''), JStr ''2023-06-01 12:00:00''),
      ((''1234'', ''currentPower''), JNum 1500),
      ((''1234'', ''lifeTimeData''), JNum 9000000),
      ((''1234'', ''lastYearData''), JNum 4000000),
      ((''1234'', ''lastMonthData''), JNum 300000),
      ((''1234'', ''lastDayData''), JNum 12000),
      ((''1234'', ''currentFlowGrid''), JNum 1),
      ((''1234'', ''currentFlowLoad''), JNum 2),
      ((''1234'', ''currentFlowPv''), JNum 3),
      ((''1234'', ''powerUnit''), JStr ''kW''),
      ((''1234'', ''feedToBattery''), JBool (spec_feedToBattery cs)),
      ((''1234'', ''batteryStatus''), JStr ''unknown''),
      ((''1234'', ''batteryPowerFlow''), JNum 0)]"
    unfolding r by (simp add: sets)
  show "logsAt Error (trace (run cfgFlow ?e w)) = [CannotRead (TypeError ''chargeLevel'')]"
    unfolding r by (simp add: errs)
  show "last (trace (run cfgFlow ?e w)) = Stop"
    unfolding r by simp
qed

lemma loadToGrid_signals [simp]:
  "spec_feedToGrid [loadToGrid]" "\<not> spec_feedToBattery [loadToGrid]"
  "\<not> spec_feedToGrid []" "\<not> spec_feedToBattery []"
  by (simp_all add: spec_feedToGrid_def spec_feedToBattery_def eqIgnoreCase_def loadToGrid_def
        lower_targets lower_examples)

text \<open>
  With a \<^verbatim>\<open>STORAGE\<close> node present the block publishes both signals as the specification
  defines them, and the values of the other absent nodes default to 0 and \<open>unknown\<close>.
\<close>

lemma derived_signals_with_storage:
  assumes "pf_STORAGE pf = Some s"
  shows "((site, ''feedToGrid''), JBool (spec_feedToGrid (edgesOf pf)))
           \<in> set (setCalls (trace (snd (publishFlow site pf w))))"
    and "((site, ''feedToBattery''), JBool (spec_feedToBattery (edgesOf pf)))
           \<in> set (setCalls (trace (snd (publishFlow site pf w))))"
  by (simp_all add: publishFlow_storage_present(2) [OF assms])

lemma defaults_with_storage:
  assumes "pf_STORAGE pf = Some s" "pf_GRID pf = None" "pf_LOAD pf = None" "pf_PV pf = None"
  shows "setCalls (trace (snd (publishFlow site pf w))) = setCalls (trace w) @
           [((site, ''currentFlowGrid''), JNum 0),
            ((site, ''currentFlowLoad''), JNum 0),
            ((site, ''currentFlowPv''), JNum 0),
            ((site, ''powerUnit''), pf_unit pf),
            ((site, ''feedToBattery''), JBool (spec_feedToBattery (edgesOf pf))),
            ((site, ''batteryStatus''), node_status s),
            ((site, ''batteryPowerFlow''), node_currentPower s),
            ((site, ''batteryChargeLevel''), node_chargeLevel s),
            ((site, ''feedToGrid''), JBool (spec_feedToGrid (edgesOf pf))),
            ((site, ''gridPowerFlow''), JNum 0),
            ((site, ''housePowerFlow''), JNum 0),
            ((site, ''pvPowerFlow''), JNum 0),
            ((site, ''pvStatus''), JStr ''unknown'')]"
  by (simp add: publishFlow_storage_present(2) [OF assms(1)] assms powerOr0_def statusOrUnknown_def)

text \<open>
  A power-flow fetch that throws, after a complete overview: what the run has done when it
  ends, for each way the schedule step can go.
\<close>

lemma flow_failure_isolated:
  assumes "validCredentials cfg site key" and "currentPowerFlow cfg"
    and "overviewFetch e = Response (Some (Some ov))"
    and "ov_currentPower ov = Some p" and "ov_lifeTimeData ov = Some lt"
    and "ov_lastYearData ov = Some ly" and "ov_lastMonthData ov = Some lm"
    and "ov_lastDayData ov = Some ld"
    and "powerFlowFetch e = Throws x"
  shows "setCalls (trace (runWith fo cfg e w)) =
           [((site, ''lastUpdateTime''), ov_lastUpdateTime ov), ((site, ''currentPower''), p),
            ((site, ''lifeTimeData''), lt), ((site, ''lastYearData''), ly),
            ((site, ''lastMonthData''), lm), ((site, ''lastDayData''), ld)]"
    and "states (runWith fo cfg e w) (site, ''lastUpdateTime'') = Some (ov_lastUpdateTime ov)"
    and "states (runWith fo cfg e w) (site, ''currentPower'') = Some p"
    and "states (runWith fo cfg e w) (site, ''lifeTimeData'') = Some lt"
    and "states (runWith fo cfg e w) (site, ''lastYearData'') = Some ly"
    and "states (runWith fo cfg e w) (site, ''lastMonthData'') = Some lm"
    and "states (runWith fo cfg e w) (site, ''lastDayData'') = Some ld"
    and "httpCalls (trace (runWith fo cfg e w)) = [overviewUrl site key, powerFlowUrl site key]"
    and "logsAt Error (trace (runWith fo cfg e w)) = [CannotRead x]"
    and "getForeignObjectThrows fo = Some y \<Longrightarrow>
           \<exists>pre. trace (runWith fo cfg e w) =
             pre @ [Log Error (CannotRead x), Log Debug Done, GetForeignObject,
                    Rejected (TypeError ''error'')]"
    and "getForeignObjectThrows fo = None \<Longrightarrow> storedSchedule w \<noteq> Some defaultSchedule \<Longrightarrow>
           \<exists>pre. trace (runWith fo cfg e w) =
             pre @ [Log Error (CannotRead x), Log Debug Done, GetForeignObject, Stop]"
    and "getForeignObjectThrows fo = None \<Longrightarrow> storedSchedule w = Some defaultSchedule \<Longrightarrow>
           \<exists>pre obj. trace (runWith fo cfg e w) =
             pre @ [Log Error (CannotRead x), Log Debug Done, GetForeignObject,
                    Log Info ScheduleAdjusted, SetForeignObject obj,
                    (if setForeignObjectThrows fo = None then Stop
                     else Rejected (TypeError ''error''))]"
proof -
  let ?w3 = "checkStatesCreationNeeded (currentPowerFlow cfg) site
         (adapter_log Debug (ApiKeyPrefix (take 4 key))
           (adapter_log Debug (SiteId (Some site)) (w\<lparr>trace := []\<rparr>)))"
  obtain W where W: "tryBlock cfg e site key ?w3 = (Some x, W)"
    by (simp add: tryBlock_def overviewBranch_def powerFlowBranch_def energyOf_def Let_def assms)
  let ?w5 = "adapter_log Debug Done (adapter_log Error (CannotRead x) W)"
  have r: "runWith fo cfg e w = cleanup fo e ?w5"
    by (simp add: runWith_def main_valid [OF assms(1)] W catchBlock_def)
  have sets: "setCalls (trace W) =
           [((site, ''lastUpdateTime''), ov_lastUpdateTime ov), ((site, ''currentPower''), p),
            ((site, ''lifeTimeData''), lt), ((site, ''lastYearData''), ly),
            ((site, ''lastMonthData''), lm), ((site, ''lastDayData''), ld)]"
    using W by (auto simp: tryBlock_def overviewBranch_def powerFlowBranch_def energyOf_def Let_def assms)
  have st: "states W (site, ''lastUpdateTime'') = Some (ov_lastUpdateTime ov)"
    "states W (site, ''currentPower'') = Some p"
    "states W (site, ''lifeTimeData'') = Some lt"
    "states W (site, ''lastYearData'') = Some ly"
    "states W (site, ''lastMonthData'') = Some lm"
    "states W (site, ''lastDayData'') = Some ld"
    using W by (auto simp: tryBlock_def overviewBranch_def powerFlowBranch_def energyOf_def Let_def assms)
  have http: "httpCalls (trace W) = [overviewUrl site key, powerFlowUrl site key]"
    using W by (auto simp: tryBlock_def overviewBranch_def powerFlowBranch_def energyOf_def Let_def assms)
  have errs: "logsAt Error (trace W) = []"
    using W by (auto simp: tryBlock_def overviewBranch_def powerFlowBranch_def energyOf_def Let_def assms)
  have iW: "instObj W = instObj w"
    using tryBlock_frame(1) [of cfg e site key ?w3] by (simp add: W)
  have t5: "trace ?w5 = trace W @ [Log Error (CannotRead x), Log Debug Done]" by simp
  have i5: "instObj ?w5 = instObj w" by (simp add: iW)
  have s5: "storedSchedule ?w5 = storedSchedule w" by (rule storedSchedule_cong [OF i5])
  show "setCalls (trace (runWith fo cfg e w)) =
           [((site, ''lastUpdateTime''), ov_lastUpdateTime ov), ((site, ''currentPower''), p),
            ((site, ''lifeTimeData''), lt), ((site, ''lastYearData''), ly),
            ((site, ''lastMonthData''), lm), ((site, ''lastDayData''), ld)]"
    by (simp add: r sets)
  show "states (runWith fo cfg e w) (site, ''lastUpdateTime'') = Some (ov_lastUpdateTime ov)"
    "states (runWith fo cfg e w) (site, ''currentPower'') = Some p"
    "states (runWith fo cfg e w) (site, ''lifeTimeData'') = Some lt"
    "states (runWith fo cfg e w) (site, ''lastYearData'') = Some ly"
    "states (runWith fo cfg e w) (site, ''lastMonthData'') = Some lm"
    "states (runWith fo cfg e w) (site, ''lastDayData'') = Some ld"
    by (simp_all add: r st)
  show "httpCalls (trace (runWith fo cfg e w)) = [overviewUrl site key, powerFlowUrl site key]"
    by (simp add: r http)
  show "logsAt Error (trace (runWith fo cfg e w)) = [CannotRead x]"
    by (simp add: r errs)
  show "\<exists>pre. trace (runWith fo cfg e w) =
             pre @ [Log Error (CannotRead x), Log Debug Done, GetForeignObject,
                    Rejected (TypeError ''error'')]"
    if "getForeignObjectThrows fo = Some y"
    unfolding r cleanup_read_throws(1) [OF that] t5 by simp
  show "\<exists>pre. trace (runWith fo cfg e w) =
             pre @ [Log Error (CannotRead x), Log Debug Done, GetForeignObject, Stop]"
    if "getForeignObjectThrows fo = None" "storedSchedule w \<noteq> Some defaultSchedule"
  proof -
    have n: "storedSchedule ?w5 \<noteq> Some defaultSchedule" using that(2) unfolding s5 .
    show ?thesis unfolding r cleanup_keeps(1) [OF that(1) n] t5 by simp
  qed
  show "\<exists>pre obj. trace (runWith fo cfg e w) =
             pre @ [Log Error (CannotRead x), Log Debug Done, GetForeignObject,
                    Log Info ScheduleAdjusted, SetForeignObject obj,
                    (if setForeignObjectThrows fo = None then Stop
                     else Rejected (TypeError ''error''))]"
    if "getForeignObjectThrows fo = None" "storedSchedule w = Some defaultSchedule"
  proof -
    have "storedSchedule ?w5 = Some defaultSchedule" using that(2) unfolding s5 .
    then obtain obj c where oc: "instObj ?w5 = Some obj" "common obj = Some c"
        "schedule c = Some defaultSchedule"
      by (rule storedSchedule_default)
    show ?thesis unfolding r cleanup_rewrites(1) [OF that(1) oc] t5 by auto
  qed
qed

section \<open>The claims\<close>

text \<open>
  Claim C1, evaluated where it fails. For a power flow without a \<^verbatim>\<open>STORAGE\<close> node and
  with no connection, the publish pass throws at \<^verbatim>\<open>powerFlow.STORAGE.chargeLevel\<close>
  (line 320): seven power-flow values are published, \<^verbatim>\<open>batteryChargeLevel\<close> and the
  values after it (among them \<^verbatim>\<open>pvStatus\<close>) are not, and the TypeError is logged as an
  error.
\<close>

theorem storage_absent_stops_publishing:
  "pf_STORAGE (flowNoStorage []) = None
   \<and> fst (publishFlow ''1234'' (flowNoStorage []) emptyWorld) = Some (TypeError ''chargeLevel'')
   \<and> map (\<lambda>c. snd (fst c)) (setCalls (trace (run cfgFlow (envNoStorage []) emptyWorld)))
        = baseStates @ [''currentFlowGrid'', ''currentFlowLoad'', ''currentFlowPv'', ''powerUnit'',
                        ''feedToBattery'', ''batteryStatus'', ''batteryPowerFlow'']
   \<and> (''1234'', ''batteryChargeLevel'') \<notin> fst ` set (setCalls (trace (run cfgFlow (envNoStorage []) emptyWorld)))
   \<and> (''1234'', ''pvStatus'') \<notin> fst ` set (setCalls (trace (run cfgFlow (envNoStorage []) emptyWorld)))
   \<and> logsAt Error (trace (run cfgFlow (envNoStorage []) emptyWorld))
        = [CannotRead (TypeError ''chargeLevel'')]"
proof -
  have ns: "pf_STORAGE (flowNoStorage []) = None" by (simp add: flowNoStorage_def)
  show ?thesis
    using publishFlow_storage_absent(1) [OF ns, of "''1234''" emptyWorld]
    by (simp add: ns run_no_storage baseStates_def)
qed

text \<open>
  Claim C2, evaluated where it fails. For a power flow without a \<^verbatim>\<open>STORAGE\<close> node
  whose only connection goes from Load to Grid, the loop computes \<^verbatim>\<open>feedToGrid = true\<close>
  and \<^verbatim>\<open>feedToBattery = false\<close>; \<^verbatim>\<open>feedToBattery\<close> is published, but the run throws
  at line 320 before line 321, so \<^verbatim>\<open>feedToGrid\<close> is never published.
\<close>

theorem feed_to_grid_lost_without_storage:
  "pf_STORAGE (flowNoStorage [loadToGrid]) = None
   \<and> spec_feedToGrid [loadToGrid]
   \<and> scanConnections [loadToGrid] (False, False) = (True, False)
   \<and> ((''1234'', ''feedToBattery''), JBool False)
        \<in> set (setCalls (trace (run cfgFlow (envNoStorage [loadToGrid]) emptyWorld)))
   \<and> (''1234'', ''feedToGrid'')
        \<notin> fst ` set (setCalls (trace (run cfgFlow (envNoStorage [loadToGrid]) emptyWorld)))"
  by (simp add: run_no_storage scan_refines_spec flowNoStorage_def)

text \<open>
  Claim C3, as amended. In a run with both credentials set, started with the module
  variable falsy, whose overview fetch returns a body with \<^verbatim>\<open>overview.currentPower\<close>:
  when some state of the active catalog is missing, a create call is made for every
  state of the active catalog, in the order of lines 108 to 273; when all of them exist,
  no create call is made. The states created and the states checked are the same set.
\<close>

theorem create_all_or_nothing:
  assumes "validCredentials cfg site key"
    and "overviewFetch e = Response (Some (Some ov))" and "ov_currentPower ov = Some p"
    and "\<not> truthy (createStates w)"
  shows "((\<exists>n\<in>set (activeCatalog (currentPowerFlow cfg)). states w (site, n) = None) \<longrightarrow>
            createCalls (trace (run cfg e w))
              = map (Pair site) (createdCatalog (currentPowerFlow cfg)))
       \<and> ((\<forall>n\<in>set (activeCatalog (currentPowerFlow cfg)). states w (site, n) \<noteq> None) \<longrightarrow>
            createCalls (trace (run cfg e w)) = [])
       \<and> set (createdCatalog (currentPowerFlow cfg)) = set (activeCatalog (currentPowerFlow cfg))"
proof -
  have "overviewUsable e" using assms(2,3) by (simp add: overviewUsable_def)
  then show ?thesis
    using assms(4) by (auto simp: run_creates [OF assms(1)] catalog_sets)
qed

theorem create_all_or_nothing_witness:
  "validCredentials cfgFlow ''1234'' ''ABCDEF''
   \<and> overviewFetch envOk = Response (Some (Some sampleOverview))
   \<and> ov_currentPower sampleOverview = Some (JNum 1500)
   \<and> \<not> truthy (createStates emptyWorld) \<and> \<not> truthy (createStates declaredWorld)
   \<and> states emptyWorld (''1234'', ''pvStatus'') = None
   \<and> createCalls (trace (run cfgFlow envOk emptyWorld))
        = map (Pair ''1234'') (baseStates @ flowStatesCreated)
   \<and> states declaredWorld (''1234'', ''pvStatus'') \<noteq> None
   \<and> createCalls (trace (run cfgFlow envOk declaredWorld)) = []"
proof -
  have f: "currentPowerFlow cfgFlow" by simp
  have ov: "overviewFetch envOk = Response (Some (Some sampleOverview))"
    "ov_currentPower sampleOverview = Some (JNum 1500)"
    by simp_all
  have e: "\<not> truthy (createStates emptyWorld)" "\<not> truthy (createStates declaredWorld)"
    by (simp_all add: emptyWorld_def declaredWorld_def)
  have m: "''pvStatus'' \<in> set (activeCatalog True)" "states emptyWorld (''1234'', ''pvStatus'') = None"
    by (simp_all add: activeCatalog_def flowStatesChecked_def emptyWorld_def)
  have d: "\<forall>n\<in>set (activeCatalog True). states declaredWorld (''1234'', n) \<noteq> None"
    by (simp add: declaredWorld_def activeCatalog_def)
  show ?thesis
    using create_all_or_nothing [OF sample_valid(1) ov e(1)]
          create_all_or_nothing [OF sample_valid(1) ov e(2)] m d e ov
    by (auto simp: f createdCatalog_def activeCatalog_def declaredWorld_def flowStatesChecked_def)
qed

text \<open>
  Where the claim as written fails: both credentials are set, every state is missing, and the
  overview fetch throws. The run creates nothing.
\<close>

theorem no_create_when_overview_throws:
  "validCredentials cfgBase ''1234'' ''ABCDEF''
   \<and> ''lastUpdateTime'' \<in> set (activeCatalog (currentPowerFlow cfgBase))
   \<and> states emptyWorld (''1234'', ''lastUpdateTime'') = None
   \<and> createCalls (trace (run cfgBase envOverviewThrows emptyWorld)) = []"
  by (simp add: run_creates [OF sample_valid(2)] activeCatalog_def baseStates_def emptyWorld_def)

text \<open>
  Claim C4, as amended. When the first run had both credentials set and its overview fetch
  returned a body with \<^verbatim>\<open>overview.currentPower\<close>, the whole active catalog exists after
  it, and a second run with the same configuration makes no create call, whatever its
  fetches return; this holds when the module stays loaded between the runs and when the
  second run starts in a new process.
\<close>

theorem second_run_creates_nothing:
  assumes "validCredentials cfg site key"
    and "overviewFetch e1 = Response (Some (Some ov))" and "ov_currentPower ov = Some p"
  shows "createCalls (trace (run cfg e2 (run cfg e1 w))) = []
       \<and> createCalls (trace (run cfg e2 ((run cfg e1 w)\<lparr>createStates := FUndefined\<rparr>))) = []
       \<and> (\<forall>n\<in>set (activeCatalog (currentPowerFlow cfg)). states (run cfg e1 w) (site, n) \<noteq> None)"
proof -
  have "overviewUsable e1" using assms(2,3) by (simp add: overviewUsable_def)
  then have "settled (currentPowerFlow cfg) site (run cfg e1 w)"
    by (rule run_settled [OF assms(1)])
  then show ?thesis
    by (auto simp: run_creates [OF assms(1)] settled_def)
qed

theorem second_run_creates_nothing_witness:
  "validCredentials cfgFlow ''1234'' ''ABCDEF''
   \<and> overviewFetch envOk = Response (Some (Some sampleOverview))
   \<and> ov_currentPower sampleOverview = Some (JNum 1500)
   \<and> createCalls (trace (run cfgFlow envOk emptyWorld)) = map (Pair ''1234'') (baseStates @ flowStatesCreated)
   \<and> createCalls (trace (run cfgFlow envOk (run cfgFlow envOk emptyWorld))) = []"
proof -
  have ov: "overviewFetch envOk = Response (Some (Some sampleOverview))"
    "ov_currentPower sampleOverview = Some (JNum 1500)"
    by simp_all
  have "createCalls (trace (run cfgFlow envOk emptyWorld)) = map (Pair ''1234'') (baseStates @ flowStatesCreated)"
    by (simp add: run_creates [OF sample_valid(1)] createdCatalog_def)
  then show ?thesis
    using second_run_creates_nothing [OF sample_valid(1) ov, of envOk emptyWorld] ov by simp
qed

text \<open>
  Where the claim as written fails: the first run gets an overview response without a body. It
  logs no error and ends with the stop call, the store is as before, and the second run
  creates the whole catalog, in the same module instance or in a new process.
\<close>

theorem second_run_creates_after_empty_body:
  "logsAt Error (trace (run cfgBase envEmptyBody emptyWorld)) = []
   \<and> last (trace (run cfgBase envEmptyBody emptyWorld)) = Stop
   \<and> states (run cfgBase envEmptyBody emptyWorld) = states emptyWorld
   \<and> createCalls (trace (run cfgBase envOk (run cfgBase envEmptyBody emptyWorld)))
       = map (Pair ''1234'') baseStates
   \<and> createCalls (trace (run cfgBase envOk
         ((run cfgBase envEmptyBody emptyWorld)\<lparr>createStates := FUndefined\<rparr>)))
       = map (Pair ''1234'') baseStates"
proof -
  have 1: "logsAt Error (trace (run cfgBase envEmptyBody emptyWorld)) = []"
    by (simp add: run_def main_valid [OF sample_valid(2)] tryBlock_def Let_def catchBlock_def)
  have 2: "last (trace (run cfgBase envEmptyBody emptyWorld)) = Stop"
    by (simp add: run_def main_valid [OF sample_valid(2)])
  have 3: "''lastUpdateTime'' \<in> set (activeCatalog (currentPowerFlow cfgBase))"
    by (simp add: activeCatalog_def baseStates_def)
  have 4: "states emptyWorld (''1234'', ''lastUpdateTime'') = None"
    by (simp add: emptyWorld_def)
  have 5: "createdCatalog False = baseStates"
    by (simp add: createdCatalog_def)
  show ?thesis
    using 1 2 3 4 by (auto simp: run_creates [OF sample_valid(2)] run_empty_body_states 5)
qed

text \<open>
  Claim C5, as amended. With the power-flow feature off, no run checks or creates a
  power-flow state. With the feature on and both credentials set, every base state and
  every power-flow state is checked. The function \<^verbatim>\<open>checkStatesCreationNeeded\<close> itself
  checks the base states and the power-flow states when the feature is on, and the base
  states alone when it is off, whenever it is called.
\<close>

theorem catalog_gating:
  "(\<not> currentPowerFlow cfg \<longrightarrow>
      (\<forall>i \<in> set (getCalls (trace (run cfg e w))) \<union> set (createCalls (trace (run cfg e w))).
          snd i \<notin> set flowStatesChecked))
   \<and> (currentPowerFlow cfg \<and> validCredentials cfg site key \<longrightarrow>
        (\<forall>n\<in>set (baseStates @ flowStatesChecked). (site, n) \<in> set (getCalls (trace (run cfg e w)))))
   \<and> getCalls (trace (checkStatesCreationNeeded True site w'))
        = getCalls (trace w') @ map (Pair site) (baseStates @ flowStatesChecked)
   \<and> getCalls (trace (checkStatesCreationNeeded False site w'))
        = getCalls (trace w') @ map (Pair site) baseStates"
proof (cases "\<exists>s k. validCredentials cfg s k")
  case True
  then obtain s k where v: "validCredentials cfg s k" by blast
  have same: "validCredentials cfg site key \<Longrightarrow> site = s"
    using v by (simp add: validCredentials_def)
  show ?thesis
    using same
    by (auto simp: run_gets [OF v] run_creates [OF v] activeCatalog_def createdCatalog_def
          base_not_flow split: if_splits)
next
  case False
  then have "trace (run cfg e w) =
     [Log Debug (SiteId (siteid cfg)),
      Log Debug (case apikey cfg of
                   None \<Rightarrow> ApiKeyNotSet
                 | Some k \<Rightarrow> if k = [] then ApiKeyNotSet else ApiKeyPrefix (take 4 k)),
      Log Error CredentialsNotSet]"
    by (simp add: run_def main_invalid)
  then show ?thesis using False by (simp add: activeCatalog_def)
qed

theorem catalog_gating_witness:
  "\<not> currentPowerFlow cfgBase
   \<and> getCalls (trace (run cfgBase envOk emptyWorld)) = map (Pair ''1234'') baseStates
   \<and> (''1234'', ''pvStatus'') \<notin> set (getCalls (trace (run cfgBase envOk emptyWorld)))
   \<and> (''1234'', ''pvStatus'') \<notin> set (createCalls (trace (run cfgBase envOk emptyWorld)))
   \<and> currentPowerFlow cfgFlow \<and> validCredentials cfgFlow ''1234'' ''ABCDEF''
   \<and> (''1234'', ''lastDayData'') \<in> set (getCalls (trace (run cfgFlow envOk emptyWorld)))
   \<and> (''1234'', ''pvStatus'') \<in> set (getCalls (trace (run cfgFlow envOk emptyWorld)))"
proof -
  have g: "getCalls (trace (run cfgBase envOk emptyWorld)) = map (Pair ''1234'') baseStates"
    by (simp add: run_def main_valid [OF sample_valid(2)] tryBlock_def overviewBranch_def
          Let_def activeCatalog_def energyOf_def sampleOverview_def)
  have n: "''pvStatus'' \<in> set flowStatesChecked" "''lastDayData'' \<in> set baseStates"
    by (simp_all add: flowStatesChecked_def baseStates_def)
  have 1: "(''1234'', ''pvStatus'') \<notin> set (getCalls (trace (run cfgBase envOk emptyWorld)))"
    "(''1234'', ''pvStatus'') \<notin> set (createCalls (trace (run cfgBase envOk emptyWorld)))"
    using catalog_gating [of cfgBase envOk emptyWorld "''1234''" "''ABCDEF''" emptyWorld] n(1)
    by (auto dest!: bspec [where x = "(''1234'', ''pvStatus'')"])
  have 2: "(''1234'', ''lastDayData'') \<in> set (getCalls (trace (run cfgFlow envOk emptyWorld)))"
    "(''1234'', ''pvStatus'') \<in> set (getCalls (trace (run cfgFlow envOk emptyWorld)))"
    using catalog_gating [of cfgFlow envOk emptyWorld "''1234''" "''ABCDEF''" emptyWorld] n by auto
  show ?thesis using g 1 2 by simp
qed

text \<open>
  Where the claim as written fails: the feature is on and the API key is not set. The run checks
  no state at all.
\<close>

theorem no_check_without_credentials:
  "currentPowerFlow cfgNoKey \<and> getCalls (trace (run cfgNoKey envOk emptyWorld)) = []"
proof -
  have "\<not> (\<exists>site key. validCredentials cfgNoKey site key)"
    by (simp add: validCredentials_def cfgNoKey_def)
  then show ?thesis
    by (simp add: run_def main_invalid) (simp add: cfgNoKey_def)
qed

text \<open>
  Claim C6, as amended. At the end of a run with both credentials set, with
  \<^verbatim>\<open>Math.random()\<close> a binary64 number from 0 (included) to 1 (excluded): when the stored
  schedule is exactly the default and the read and the write of the instance object both
  return, the schedule is replaced by \<open>s */15 * * * *\<close>, where \<open>s\<close> is the floor of the
  binary64 product of the random number and 60 and is at most 59, and the instance object
  is written once; for any other stored schedule, or none, the instance object stays as it
  was and is not written; and when the read or the write throws, the stored instance
  object stays as it was.
\<close>

theorem schedule_adjusted_once:
  assumes "validCredentials cfg site key" and "isRandom (random e)"
  shows "(getForeignObjectThrows fo = None \<and> setForeignObjectThrows fo = None
            \<and> storedSchedule w = Some defaultSchedule \<longrightarrow>
            storedSchedule (runWith fo cfg e w)
              = Some (numberToString (secondsOffset (random e)) @ '' */15 * * * *'')
            \<and> secondsOffset (random e) \<le> 59
            \<and> map Some (foreignWrites (trace (runWith fo cfg e w))) = [instObj (runWith fo cfg e w)])
       \<and> (storedSchedule w \<noteq> Some defaultSchedule \<longrightarrow>
            instObj (runWith fo cfg e w) = instObj w
            \<and> foreignWrites (trace (runWith fo cfg e w)) = [])
       \<and> (getForeignObjectThrows fo \<noteq> None \<or> setForeignObjectThrows fo \<noteq> None \<longrightarrow>
            instObj (runWith fo cfg e w) = instObj w)"
proof -
  let ?w5 = "adapter_log Debug Done (catchBlock (tryBlock cfg e site key
       (checkStatesCreationNeeded (currentPowerFlow cfg) site
         (adapter_log Debug (ApiKeyPrefix (take 4 key))
           (adapter_log Debug (SiteId (Some site)) (w\<lparr>trace := []\<rparr>))))))"
  have i5: "instObj ?w5 = instObj w" by simp
  have f5: "foreignWrites (trace ?w5) = []" by simp
  have r: "runWith fo cfg e w = cleanup fo e ?w5"
    by (simp add: runWith_def main_valid [OF assms(1)])
  have s5: "storedSchedule ?w5 = storedSchedule w"
    by (rule storedSchedule_cong [OF i5])
  have bound: "secondsOffset (random e) \<le> 59"
    by (rule secondsOffset_bound [OF assms(2)])
  have rewritten: "storedSchedule (runWith fo cfg e w)
              = Some (numberToString (secondsOffset (random e)) @ '' */15 * * * *'')
            \<and> map Some (foreignWrites (trace (runWith fo cfg e w))) = [instObj (runWith fo cfg e w)]"
    if ok: "getForeignObjectThrows fo = None" "setForeignObjectThrows fo = None"
      and d: "storedSchedule w = Some defaultSchedule"
  proof -
    have "storedSchedule ?w5 = Some defaultSchedule" using d unfolding s5 .
    then obtain obj c where oc: "instObj ?w5 = Some obj" "common obj = Some c"
        "schedule c = Some defaultSchedule"
      by (rule storedSchedule_default)
    have i: "instObj (cleanup fo e ?w5) = Some (rescheduled e obj c)"
      unfolding cleanup_rewrites(2) [OF ok(1) oc] ok(2) by simp
    have f: "foreignWrites (trace (cleanup fo e ?w5)) = [rescheduled e obj c]"
      unfolding cleanup_rewrites(3) [OF ok(1) oc] f5 by simp
    have "storedSchedule (cleanup fo e ?w5)
            = Some (numberToString (secondsOffset (random e)) @ '' */15 * * * *'')"
      by (simp only: storedSchedule_def i rescheduled_def) simp
    then show ?thesis unfolding r i f by simp
  qed
  have kept: "instObj (runWith fo cfg e w) = instObj w
            \<and> foreignWrites (trace (runWith fo cfg e w)) = []"
    if n: "storedSchedule w \<noteq> Some defaultSchedule"
  proof (cases "getForeignObjectThrows fo")
    case None
    have n5: "storedSchedule ?w5 \<noteq> Some defaultSchedule" using n unfolding s5 .
    show ?thesis
      unfolding r cleanup_keeps(2,3) [OF None n5] i5 f5 by simp
  next
    case (Some x)
    show ?thesis
      unfolding r cleanup_read_throws(2,3) [OF Some] i5 f5 by simp
  qed
  have thrown: "instObj (runWith fo cfg e w) = instObj w"
    if t: "getForeignObjectThrows fo \<noteq> None \<or> setForeignObjectThrows fo \<noteq> None"
  proof (cases "getForeignObjectThrows fo")
    case (Some x)
    show ?thesis unfolding r cleanup_read_throws(2) [OF Some] i5 by simp
  next
    case None
    then have st: "setForeignObjectThrows fo \<noteq> None" using t by simp
    show ?thesis
    proof (cases "storedSchedule w = Some defaultSchedule")
      case False
      then show ?thesis using kept by simp
    next
      case True
      then have "storedSchedule ?w5 = Some defaultSchedule" unfolding s5 .
      then obtain obj c where oc: "instObj ?w5 = Some obj" "common obj = Some c"
          "schedule c = Some defaultSchedule"
        by (rule storedSchedule_default)
      show ?thesis
        unfolding r cleanup_rewrites(2) [OF None oc] using st i5 by auto
    qed
  qed
  show ?thesis using rewritten kept thrown bound by blast
qed

theorem schedule_adjusted_once_witness:
  "validCredentials cfgFlow ''1234'' ''ABCDEF'' \<and> isRandom (random envOk)
   \<and> getForeignObjectThrows reliable = None \<and> setForeignObjectThrows reliable = None
   \<and> storedSchedule emptyWorld = Some defaultSchedule
   \<and> storedSchedule (runWith reliable cfgFlow envOk emptyWorld) = Some ''30 */15 * * * *''
   \<and> secondsOffset (random envOk) \<le> 59
   \<and> storedSchedule shiftedWorld \<noteq> Some defaultSchedule
   \<and> instObj (runWith reliable cfgFlow envOk shiftedWorld) = instObj shiftedWorld
   \<and> foreignWrites (trace (runWith reliable cfgFlow envOk shiftedWorld)) = []
   \<and> getForeignObjectThrows readThrows \<noteq> None
   \<and> instObj (runWith readThrows cfgFlow envOk emptyWorld) = instObj emptyWorld"
proof -
  have d: "storedSchedule emptyWorld = Some defaultSchedule"
    by (simp add: storedSchedule_def emptyWorld_def defaultInst_def defaultSchedule_def)
  have n: "storedSchedule shiftedWorld \<noteq> Some defaultSchedule"
    by (simp add: storedSchedule_def shiftedWorld_def defaultSchedule_def)
  show ?thesis
    using schedule_adjusted_once [OF sample_valid(1) half_minute(1), of reliable emptyWorld]
          schedule_adjusted_once [OF sample_valid(1) half_minute(1), of reliable shiftedWorld]
          schedule_adjusted_once [OF sample_valid(1) half_minute(1), of readThrows emptyWorld]
          d n
    by (simp add: half_minute)
qed

text \<open>
  Where the claim as written fails: the stored schedule is the default and the API key is not
  set. The run ends with the schedule unchanged and writes nothing; with the key set the
  same store ends with the schedule \<open>30 */15 * * * *\<close>, unless the instance object cannot
  be read: then the schedule is unchanged as well.
\<close>

theorem schedule_kept_without_credentials:
  "storedSchedule emptyWorld = Some ''*/15 * * * *''
   \<and> storedSchedule (run cfgNoKey envOk emptyWorld) = Some ''*/15 * * * *''
   \<and> foreignWrites (trace (run cfgNoKey envOk emptyWorld)) = []
   \<and> storedSchedule (run cfgFlow envOk emptyWorld) = Some ''30 */15 * * * *''
   \<and> storedSchedule (runWith readThrows cfgFlow envOk emptyWorld) = Some ''*/15 * * * *''"
proof -
  let ?w5 = "\<lambda>w. adapter_log Debug Done (catchBlock (tryBlock cfgFlow envOk ''1234'' ''ABCDEF''
       (checkStatesCreationNeeded (currentPowerFlow cfgFlow) ''1234''
         (adapter_log Debug (ApiKeyPrefix (take 4 ''ABCDEF''))
           (adapter_log Debug (SiteId (Some ''1234'')) (w\<lparr>trace := []\<rparr>))))))"
  have nv: "\<not> (\<exists>site key. validCredentials cfgNoKey site key)"
    by (simp add: validCredentials_def cfgNoKey_def)
  have d: "storedSchedule emptyWorld = Some ''*/15 * * * *''"
    by (simp add: storedSchedule_def emptyWorld_def defaultInst_def)
  have 1: "storedSchedule (run cfgNoKey envOk emptyWorld) = storedSchedule emptyWorld"
    by (rule storedSchedule_cong) (simp add: run_def main_invalid [OF nv])
  have 2: "foreignWrites (trace (run cfgNoKey envOk emptyWorld)) = []"
    by (simp add: run_def main_invalid [OF nv])
  have i: "instObj (?w5 emptyWorld) = Some defaultInst"
    "common defaultInst = Some \<lparr>schedule = Some ''*/15 * * * *''\<rparr>"
    "schedule \<lparr>schedule = Some ''*/15 * * * *''\<rparr> = Some defaultSchedule"
    by (simp_all add: emptyWorld_def defaultInst_def defaultSchedule_def)
  have r: "runWith fo cfgFlow envOk emptyWorld = cleanup fo envOk (?w5 emptyWorld)" for fo
    by (simp only: runWith_def main_valid [OF sample_valid(1)])
  have "instObj (runWith reliable cfgFlow envOk emptyWorld)
          = Some (rescheduled envOk defaultInst \<lparr>schedule = Some ''*/15 * * * *''\<rparr>)"
    unfolding r cleanup_rewrites(2) [OF reliable_fields(1) i] by simp
  then have 3: "storedSchedule (run cfgFlow envOk emptyWorld) = Some ''30 */15 * * * *''"
    by (simp add: run_runWith storedSchedule_def rescheduled_def half_minute)
  have "instObj (runWith readThrows cfgFlow envOk emptyWorld) = instObj (?w5 emptyWorld)"
    unfolding r by (rule cleanup_read_throws(2) [OF reliable_fields(3)])
  then have 4: "storedSchedule (runWith readThrows cfgFlow envOk emptyWorld) = Some ''*/15 * * * *''"
    by (simp add: storedSchedule_def emptyWorld_def defaultInst_def)
  show ?thesis using d 1 2 3 4 by simp
qed

text \<open>
  Claim C7. When \<^verbatim>\<open>siteid\<close> or \<^verbatim>\<open>apikey\<close> is missing or empty, the run logs the two
  debug lines and the error \<^verbatim>\<open>siteid or api key not set\<close> and ends there: it makes no
  HTTP request, no existence check, no create call and no publish, and the store is as
  it was.
\<close>

theorem missing_credentials_abort:
  assumes "siteid cfg = None \<or> siteid cfg = Some [] \<or> apikey cfg = None \<or> apikey cfg = Some []"
  shows "trace (run cfg e w) =
           [Log Debug (SiteId (siteid cfg)),
            Log Debug (case apikey cfg of
                         None \<Rightarrow> ApiKeyNotSet
                       | Some k \<Rightarrow> if k = [] then ApiKeyNotSet else ApiKeyPrefix (take 4 k)),
            Log Error CredentialsNotSet]
         \<and> httpCalls (trace (run cfg e w)) = []
         \<and> getCalls (trace (run cfg e w)) = []
         \<and> createCalls (trace (run cfg e w)) = []
         \<and> setCalls (trace (run cfg e w)) = []
         \<and> states (run cfg e w) = states w"
proof -
  have "\<not> (\<exists>site key. validCredentials cfg site key)"
    using assms by (auto simp: validCredentials_def)
  then show ?thesis
    by (simp add: run_def main_invalid)
qed

theorem missing_credentials_abort_witness:
  "apikey cfgNoKey = None
   \<and> trace (run cfgNoKey envOk emptyWorld) =
       [Log Debug (SiteId (Some ''1234'')), Log Debug ApiKeyNotSet, Log Error CredentialsNotSet]
   \<and> httpCalls (trace (run cfgNoKey envOk emptyWorld)) = []
   \<and> getCalls (trace (run cfgNoKey envOk emptyWorld)) = []
   \<and> createCalls (trace (run cfgNoKey envOk emptyWorld)) = []"
  using missing_credentials_abort [of cfgNoKey envOk emptyWorld]
  by (simp add: cfgNoKey_def)

text \<open>
  Claim C8, evaluated where it fails. Both credentials are set, the power-flow feature is
  on, the overview response is complete, the power-flow fetch throws, and then the read of
  the instance object in the schedule step (line 337) throws as well. The six overview
  values stay published, no power-flow value is published and the fetch error is logged
  once by the handler of line 330, which calls \<^verbatim>\<open>adapter.log.error\<close>. The schedule step is
  attempted, but its handler (line 344) calls \<^verbatim>\<open>this.log.error\<close>: the run ends with the
  promise of \<^verbatim>\<open>main\<close> rejected by a TypeError and the stop call of line 347 is never made.
  When the instance object can be read, the same run ends with the stop call.
\<close>

theorem flow_failure_then_unreadable_instance_never_stops:
  "validCredentials cfgFlow ''1234'' ''ABCDEF'' \<and> currentPowerFlow cfgFlow
   \<and> overviewFetch envFlowThrows = Response (Some (Some sampleOverview))
   \<and> powerFlowFetch envFlowThrows = Throws (TransportError ''timeout'')
   \<and> getForeignObjectThrows readThrows = Some (TransportError ''connection lost'')
   \<and> setCalls (trace (runWith readThrows cfgFlow envFlowThrows emptyWorld)) =
           [((''1234'', ''lastUpdateTime''), JStr ''2023-06-01 12:00:00''),
            ((''1234'', ''currentPower''), JNum 1500),
            ((''1234'', ''lifeTimeData''), JNum 9000000), ((''1234'', ''lastYearData''), JNum 4000000),
            ((''1234'', ''lastMonthData''), JNum 300000), ((''1234'', ''lastDayData''), JNum 12000)]
   \<and> states (runWith readThrows cfgFlow envFlowThrows emptyWorld) (''1234'', ''currentPower'')
       = Some (JNum 1500)
   \<and> logsAt Error (trace (runWith readThrows cfgFlow envFlowThrows emptyWorld))
       = [CannotRead (TransportError ''timeout'')]
   \<and> (\<exists>pre. trace (runWith readThrows cfgFlow envFlowThrows emptyWorld) =
         pre @ [Log Error (CannotRead (TransportError ''timeout'')), Log Debug Done,
                GetForeignObject, Rejected (TypeError ''error'')])
   \<and> endings (trace (runWith readThrows cfgFlow envFlowThrows emptyWorld))
       = [Rejected (TypeError ''error'')]
   \<and> endings (trace (runWith reliable cfgFlow envFlowThrows emptyWorld)) = [Stop]"
proof -
  have e: "overviewFetch envFlowThrows = Response (Some (Some sampleOverview))"
    "powerFlowFetch envFlowThrows = Throws (TransportError ''timeout'')"
    by (simp_all add: envFlowThrows_def envWith_def)
  have o: "ov_currentPower sampleOverview = Some (JNum 1500)"
    "ov_lifeTimeData sampleOverview = Some (JNum 9000000)"
    "ov_lastYearData sampleOverview = Some (JNum 4000000)"
    "ov_lastMonthData sampleOverview = Some (JNum 300000)"
    "ov_lastDayData sampleOverview = Some (JNum 12000)"
    "ov_lastUpdateTime sampleOverview = JStr ''2023-06-01 12:00:00''"
    by (simp_all add: sampleOverview_def)
  note g = flow_failure_isolated [OF sample_valid(1) sample_fields(1) e(1) o(1-5) e(2)]
  have en: "endings (trace (runWith fo cfgFlow envFlowThrows emptyWorld))
          = (if fst (adjustSchedule fo envFlowThrows
                 (adapter_log Debug Done (catchBlock (tryBlock cfgFlow envFlowThrows ''1234'' ''ABCDEF''
                   (checkStatesCreationNeeded (currentPowerFlow cfgFlow) ''1234''
                     (adapter_log Debug (ApiKeyPrefix (take 4 ''ABCDEF''))
                       (adapter_log Debug (SiteId (Some ''1234'')) (emptyWorld\<lparr>trace := []\<rparr>)))))))) = None
             then [Stop] else [Rejected (TypeError ''error'')])" for fo
    by (simp only: runWith_def main_valid [OF sample_valid(1)] cleanup_endings)
       (simp add: emptyWorld_def)
  have 1: "endings (trace (runWith readThrows cfgFlow envFlowThrows emptyWorld))
       = [Rejected (TypeError ''error'')]"
    unfolding en adjustSchedule_read_throws [OF reliable_fields(3)] by simp
  have 2: "endings (trace (runWith reliable cfgFlow envFlowThrows emptyWorld)) = [Stop]"
    unfolding en adjustSchedule_returns by simp
  show ?thesis
    using g(1,3,9) [of readThrows emptyWorld] g(10) [OF reliable_fields(3), of emptyWorld] e 1 2
    by (simp add: o(6))
qed




text \<open>
  Claim C10. Create calls are made only after a usable overview response: in a run whose
  overview fetch throws or returns an empty body no state is created, whatever is missing
  from the store. The power-flow branch repeats the existence checks of the whole catalog
  and creates nothing itself.
\<close>

theorem declare_only_after_overview:
  assumes "overviewFetch e = Throws x \<or> overviewFetch e = Response None"
  shows "createCalls (trace (run cfg e w)) = []
         \<and> createCalls (trace (snd (powerFlowBranch cfg e site key w'))) = createCalls (trace w')
         \<and> getCalls (trace (snd (powerFlowBranch cfg e site key w')))
             = getCalls (trace w') @ map (Pair site) (activeCatalog (currentPowerFlow cfg))"
proof -
  have nu: "\<not> overviewUsable e"
    using assms by (auto simp: overviewUsable_def)
  have "createCalls (trace (run cfg e w)) = []"
  proof (cases "\<exists>s k. validCredentials cfg s k")
    case True
    then obtain s k where "validCredentials cfg s k" by blast
    then show ?thesis by (simp add: run_creates nu)
  next
    case False
    then show ?thesis by (simp add: run_def main_invalid)
  qed
  then show ?thesis by simp
qed

theorem declare_only_after_overview_witness:
  "overviewFetch (envWith (Throws (TransportError ''timeout'')) (Response (Some None)))
     = Throws (TransportError ''timeout'')
   \<and> states emptyWorld (''1234'', ''lastUpdateTime'') = None
   \<and> createCalls (trace (run cfgFlow (envWith (Throws (TransportError ''timeout'')) (Response (Some None))) emptyWorld)) = []
   \<and> createCalls (trace (snd (powerFlowBranch cfgFlow
        (envWith (Throws (TransportError ''timeout'')) (Response (Some None))) ''1234'' ''ABCDEF'' emptyWorld))) = []
   \<and> getCalls (trace (snd (powerFlowBranch cfgFlow
        (envWith (Throws (TransportError ''timeout'')) (Response (Some None))) ''1234'' ''ABCDEF'' emptyWorld)))
       = map (Pair ''1234'') (baseStates @ flowStatesChecked)"
  using declare_only_after_overview
          [where e = "envWith (Throws (TransportError ''timeout'')) (Response (Some None))"
             and x = "TransportError ''timeout''" and cfg = cfgFlow and w = emptyWorld
             and site = "''1234''" and key = "''ABCDEF''" and w' = emptyWorld]
  by (simp add: envWith_def emptyWorld_def cfgFlow_def activeCatalog_def)

end
